theory Spec2Isabelle
  imports Complex_Main
begin

section \<open>Data model\<close>

text \<open>
  The playback engine is the class \<open>SpeechService\<close>; its on-device adapter is the class
  \<open>TTSNative\<close>, its cloud adapter the \<open>HTMLAudioElement\<close> held in \<open>cloudAudio\<close>.
  Line indices are JavaScript numbers that hold line positions; they are modelled as
  unbounded integers. A property that may be absent (\<open>undefined\<close>) is an option.
\<close>

datatype VoiceType = system | cloud

record VoiceOption =
  vtype :: VoiceType
  vid :: string
  displayName :: string
  enabled :: bool

record SpeechConfigs =
  bookId :: "string option"
  lines :: "string list"
  lang :: "string option"
  rate :: "real option"
  totalLines :: "int option"
  selectedVoice :: "VoiceOption option"

text \<open>
  Every function the engine hands to an adapter, a timer or the media session closes over
  the pair \<open>(index, configs)\<close> of the call that created it, so a registered function is
  represented by that pair.
\<close>

type_synonym closure = "int \<times> SpeechConfigs"

datatype TTSStatus = idle | speaking | paused

record utterance =
  u_text :: "string option"
  u_lang :: string
  u_rate :: real
  u_pitch :: real
  u_volume :: real
  u_voice :: "string option"
  u_onEnd :: closure

record timeout =
  t_handle :: nat
  t_due :: nat
  t_play :: closure

datatype listener = LineEnd | IsPlayingChange | LoadMoreLines | BookCompleted

datatype playbackState = ps_none | ps_paused | ps_playing

text \<open>
  What the engine does to the outside, in order: calls of the caller's four listeners,
  calls on the two audio elements and on \<open>speechSynthesis\<close>, and console output.
\<close>

datatype effect =
    OnLineEnd int
  | OnIsPlayingChange bool
  | OnLoadMoreLines int
  | OnBookCompleted string
  | SilentPlay
  | SilentPause
  | CloudPause
  | CloudSetSrc string
  | CloudSetOnended "closure option"
  | CloudPlay
  | CloudRemoveSrc
  | CloudLoad
  | SynthCancel
  | SynthSpeak "string option" "string option"
  | SynthPause
  | SynthResume
  | ConsoleError string string
  | ConsoleLog string

text \<open>
  The state: the fields of \<open>TTSNative\<close> (\<open>tts_\<close>), of the cloud audio element
  (\<open>cloud_\<close>), of \<open>SpeechService\<close> itself, the listeners the caller has assigned, and the
  part of the browser the engine talks to: the clock, the timers and intervals that are
  set, the utterance \<open>speechSynthesis\<close> is speaking, the media session, the value
  \<open>getNowISOString()\<close> returns, and the effects so far.
\<close>

record state =
  tts_utterance :: "utterance option"
  tts_heartbeatInterval :: "nat option"
  tts_status :: TTSStatus
  cloud_src :: "string option"
  cloud_playbackRate :: real
  cloud_onended :: "closure option"
  isRestarting :: bool
  timer :: "nat option"
  currentBookId :: "string option"
  listeners :: "listener set"
  clock :: nat
  nextHandle :: nat
  timeouts :: "timeout list"
  intervals :: "nat list"
  synth_speaking :: "utterance option"
  hasMediaSession :: bool
  hasSetPositionState :: bool
  ms_playbackState :: playbackState
  ms_metadataWrites :: nat
  ms_positionState :: "(int option \<times> real \<times> int) option"
  ms_actionHandlers :: "closure option"
  nowISO :: string
  trace :: "effect list"

section \<open>Browser primitives\<close>

definition call :: "effect \<Rightarrow> state \<Rightarrow> state" where
  "call e s = s\<lparr>trace := trace s @ [e]\<rparr>"

fun listener_of :: "effect \<Rightarrow> listener option" where
  "listener_of (OnLineEnd _) = Some LineEnd"
| "listener_of (OnIsPlayingChange _) = Some IsPlayingChange"
| "listener_of (OnLoadMoreLines _) = Some LoadMoreLines"
| "listener_of (OnBookCompleted _) = Some BookCompleted"
| "listener_of _ = None"

definition heard :: "state \<Rightarrow> effect \<Rightarrow> bool" where
  "heard s e = (case listener_of e of None \<Rightarrow> False | Some l \<Rightarrow> l \<in> listeners s)"

text \<open>
  \<open>this.onX?.(v)\<close>: the listener is called when the caller has assigned one. A listener
  is the caller's code; here it only receives the call and does not call back into the
  engine before it returns.
\<close>

definition notify :: "effect \<Rightarrow> state \<Rightarrow> state" where
  "notify e s = (if heard s e then call e s else s)"

text \<open>
  Timers and intervals are named by handles, handed out in order. A handle is never falsy
  (the source types it as Node's \<open>Timeout\<close> object; in a browser it is a positive number),
  so \<open>if (this.timer)\<close> asks whether a handle was ever stored.
\<close>

definition clearTimeout :: "nat \<Rightarrow> state \<Rightarrow> state" where
  "clearTimeout h s = s\<lparr>timeouts := filter (\<lambda>t. t_handle t \<noteq> h) (timeouts s)\<rparr>"

definition setTimeout :: "closure \<Rightarrow> nat \<Rightarrow> state \<Rightarrow> nat \<times> state" where
  "setTimeout f delay s =
     (nextHandle s,
      s\<lparr>timeouts := timeouts s @ [\<lparr>t_handle = nextHandle s, t_due = clock s + delay, t_play = f\<rparr>],
        nextHandle := nextHandle s + 1\<rparr>)"

definition clearInterval :: "nat \<Rightarrow> state \<Rightarrow> state" where
  "clearInterval h s = s\<lparr>intervals := filter (\<lambda>k. k \<noteq> h) (intervals s)\<rparr>"

definition setInterval :: "state \<Rightarrow> nat \<times> state" where
  "setInterval s =
     (nextHandle s, s\<lparr>intervals := intervals s @ [nextHandle s], nextHandle := nextHandle s + 1\<rparr>)"

definition digit :: "nat \<Rightarrow> char" where
  "digit n = ''0123456789'' ! (n mod 10)"

fun string_of_nat :: "nat \<Rightarrow> string" where
  "string_of_nat n = (if n < 10 then [digit n] else string_of_nat (n div 10) @ [digit n])"

definition string_of_int :: "int \<Rightarrow> string" where
  "string_of_int i = (if i < 0 then CHR ''-'' # string_of_nat (nat (- i)) else string_of_nat (nat i))"

section \<open>TTSNative\<close>

text \<open>
  The engine calls only \<open>speak\<close> and \<open>stop\<close> of its \<open>TTSNative\<close>; the other public methods
  (\<open>pause\<close>, \<open>resume\<close>, the setters) are never reached from it and are left out, so the
  synthesis is never left paused.
\<close>

definition clearHeartbeat :: "state \<Rightarrow> state" where
  "clearHeartbeat s =
     (case tts_heartbeatInterval s of
        None \<Rightarrow> s
      | Some h \<Rightarrow> (clearInterval h s)\<lparr>tts_heartbeatInterval := None\<rparr>)"

definition startHeartbeat :: "state \<Rightarrow> state" where
  "startHeartbeat s =
     (let s1 = clearHeartbeat s;
          (h, s2) = setInterval s1
      in s2\<lparr>tts_heartbeatInterval := Some h\<rparr>)"

definition tts_stop :: "state \<Rightarrow> state" where
  "tts_stop s =
     (let s1 = s\<lparr>tts_status := idle\<rparr>;
          s2 = clearHeartbeat s1;
          s3 = (call SynthCancel s2)\<lparr>synth_speaking := None\<rparr>
      in s3\<lparr>tts_utterance := None\<rparr>)"

text \<open>
  \<open>speak(text, options, onEnd, onError)\<close>, with \<open>options = {...configs, voice}\<close>: the
  configuration carries no pitch and no volume, so both take their defaults. The error
  function the engine passes is the same for every utterance, so only \<open>onEnd\<close> is kept.
\<close>

definition new_utterance :: "string option \<Rightarrow> SpeechConfigs \<Rightarrow> string \<Rightarrow> closure \<Rightarrow> utterance" where
  "new_utterance text configs voice onEnd =
     \<lparr>u_text = text,
      u_lang = (case lang configs of None \<Rightarrow> ''eng'' | Some l \<Rightarrow> l),
      u_rate = (case rate configs of None \<Rightarrow> 1 | Some r \<Rightarrow> r),
      u_pitch = 1,
      u_volume = 1,
      u_voice = (if voice = [] then None else Some voice),
      u_onEnd = onEnd\<rparr>"

definition tts_speak :: "string option \<Rightarrow> SpeechConfigs \<Rightarrow> string \<Rightarrow> closure \<Rightarrow> state \<Rightarrow> state" where
  "tts_speak text configs voice onEnd s =
     (let s1 = tts_stop s;
          u = new_utterance text configs voice onEnd;
          s2 = s1\<lparr>tts_utterance := Some u\<rparr>
      in (call (SynthSpeak (u_text u) (u_voice u)) s2)\<lparr>synth_speaking := Some u\<rparr>)"

section \<open>SpeechService\<close>

definition falsy_string :: "string option \<Rightarrow> bool" where
  "falsy_string x = (case x of None \<Rightarrow> True | Some v \<Rightarrow> v = [])"

definition rate_or_default :: "SpeechConfigs \<Rightarrow> real" where
  "rate_or_default configs = (case rate configs of None \<Rightarrow> 1 | Some r \<Rightarrow> if r = 0 then 1 else r)"

definition stopCloud :: "state \<Rightarrow> state" where
  "stopCloud s =
     (let s1 = call CloudPause s;
          s2 = (call (CloudSetOnended None) s1)\<lparr>cloud_onended := None\<rparr>;
          s3 = (call CloudRemoveSrc s2)\<lparr>cloud_src := None\<rparr>
      in call CloudLoad s3)"

definition clearTimer :: "state \<Rightarrow> state" where
  "clearTimer s = (case timer s of None \<Rightarrow> s | Some h \<Rightarrow> clearTimeout h s)"

definition pause :: "state \<Rightarrow> state" where
  "pause s =
     (let s1 = clearTimer s;
          s2 = call SilentPause s1;
          s3 = stopCloud s2;
          s4 = tts_stop s3
      in if hasMediaSession s4 then s4\<lparr>ms_playbackState := ps_paused\<rparr> else s4)"

definition clearMediaSession :: "state \<Rightarrow> state" where
  "clearMediaSession s = s\<lparr>ms_actionHandlers := None\<rparr>"

definition stop :: "state \<Rightarrow> state" where
  "stop s =
     (let s0 = s\<lparr>isRestarting := False\<rparr>;
          s1 = clearTimer s0;
          s2 = call SilentPause s1;
          s3 = stopCloud s2;
          s4 = tts_stop s3;
          s5 = (if hasMediaSession s4 then clearMediaSession (s4\<lparr>ms_playbackState := ps_none\<rparr>) else s4)
      in notify (OnIsPlayingChange False) s5)"

text \<open>
  The four action handlers are always set together, by \<open>updateActionHandlers\<close>, and
  cleared together. \<open>setPositionState\<close> is given a position within the duration and a rate
  that is not zero, which the call accepts; its failure branch would only log.
\<close>

definition updateActionHandlers :: "int \<Rightarrow> SpeechConfigs \<Rightarrow> state \<Rightarrow> state" where
  "updateActionHandlers index configs s = s\<lparr>ms_actionHandlers := Some (index, configs)\<rparr>"

definition setupMediaSession :: "int \<Rightarrow> SpeechConfigs \<Rightarrow> state \<Rightarrow> state" where
  "setupMediaSession index configs s =
     (if \<not> hasMediaSession s then s
      else
        let s1 = (if bookId configs = None \<or> currentBookId s \<noteq> bookId configs
                  then s\<lparr>currentBookId := bookId configs, ms_metadataWrites := ms_metadataWrites s + 1\<rparr>
                  else s);
            s2 = (if hasSetPositionState s1
                  then s1\<lparr>ms_positionState := Some (totalLines configs, rate_or_default configs, index)\<rparr>
                  else s1)
        in updateActionHandlers index configs s2)"

definition cloudSrc :: "int \<Rightarrow> SpeechConfigs \<Rightarrow> VoiceOption \<Rightarrow> string" where
  "cloudSrc index configs v =
     ''/api/books/'' @ (case bookId configs of None \<Rightarrow> ''undefined'' | Some b \<Rightarrow> b)
       @ ''/audio/'' @ string_of_int index @ ''?voice='' @ vid v"

text \<open>
  The two private adapter starters read \<open>configs.selectedVoice.id\<close>. Their only caller,
  \<open>play\<close>, has checked that the voice is present; it is passed on as \<open>v\<close>.
\<close>

definition startCloudSpeech :: "int \<Rightarrow> SpeechConfigs \<Rightarrow> VoiceOption \<Rightarrow> state \<Rightarrow> state" where
  "startCloudSpeech index configs v s =
     (let s1 = call CloudPause s;
          s2 = (call (CloudSetSrc (cloudSrc index configs v)) s1)\<lparr>cloud_src := Some (cloudSrc index configs v)\<rparr>;
          s3 = s2\<lparr>cloud_playbackRate := rate_or_default configs\<rparr>;
          s4 = (call (CloudSetOnended (Some (index, configs))) s3)\<lparr>cloud_onended := Some (index, configs)\<rparr>
      in call CloudPlay s4)"

definition line_at :: "SpeechConfigs \<Rightarrow> int \<Rightarrow> string option" where
  "line_at configs index =
     (if 0 \<le> index \<and> index < int (length (lines configs)) then Some (lines configs ! nat index) else None)"

definition startSystemSpeech :: "int \<Rightarrow> SpeechConfigs \<Rightarrow> VoiceOption \<Rightarrow> state \<Rightarrow> state" where
  "startSystemSpeech index configs v s = tts_speak (line_at configs index) configs (vid v) (index, configs) s"

text \<open>
  \<open>play\<close>: the precondition check (\<open>!bookId || !totalLines || !selectedVoice\<close>, so an empty
  \<open>bookId\<close> and a \<open>totalLines\<close> of 0 fail it too), the boundary check, the loading check, and
  then the keep-alive cue, the media session and the adapter of the voice's type.
\<close>

definition play :: "int \<Rightarrow> SpeechConfigs \<Rightarrow> state \<Rightarrow> state" where
  "play index configs s =
     (if falsy_string (bookId configs) then s
      else case totalLines configs of
        None \<Rightarrow> s
      | Some n \<Rightarrow>
          if n = 0 then s
          else (case selectedVoice configs of
            None \<Rightarrow> s
          | Some v \<Rightarrow>
              if index < 0 \<or> index \<ge> n
              then notify (OnBookCompleted (nowISO s)) (notify (OnIsPlayingChange False) s)
              else if index \<ge> int (length (lines configs))
              then notify (OnLoadMoreLines index) (pause s)
              else
                let s1 = call SilentPlay s;
                    s2 = setupMediaSession index configs s1;
                    s3 = (if hasMediaSession s2 then s2\<lparr>ms_playbackState := ps_playing\<rparr> else s2);
                    s4 = (if vtype v = cloud then startCloudSpeech index configs v (tts_stop s3) else s3)
                in if vtype v = system then startSystemSpeech index configs v (stopCloud s4) else s4))"

definition start :: "int \<Rightarrow> SpeechConfigs \<Rightarrow> state \<Rightarrow> state" where
  "start index configs s = play index configs (notify (OnIsPlayingChange True) s)"

definition resume :: "int \<Rightarrow> SpeechConfigs \<Rightarrow> state \<Rightarrow> state" where
  "resume index configs s =
     (let s1 = clearTimer s;
          s2 = pause s1;
          s3 = s2\<lparr>isRestarting := True\<rparr>;
          (h, s4) = setTimeout (index, configs) 1000 s3
      in s4\<lparr>timer := Some h\<rparr>)"

section \<open>Callbacks run by the browser\<close>

text \<open>
  A timer set by \<open>resume\<close> fires once the clock has reached its due time; the browser
  drops it and runs the function \<open>resume\<close> gave it. \<open>None\<close>: the timer is not set or not
  yet due.
\<close>

definition timeout_fires :: "nat \<Rightarrow> state \<Rightarrow> state option" where
  "timeout_fires h s =
     (case find (\<lambda>t. t_handle t = h) (timeouts s) of
        None \<Rightarrow> None
      | Some t \<Rightarrow>
          if clock s < t_due t then None
          else
            let s1 = clearTimeout h s;
                s2 = play (fst (t_play t)) (snd (t_play t)) s1
            in Some (s2\<lparr>isRestarting := False\<rparr>))"

text \<open>
  The \<open>ended\<close> event of the cloud audio element runs whatever function \<open>onended\<close> holds
  when the event is dispatched, however late the event arrives.
\<close>

definition cloud_ended :: "state \<Rightarrow> state" where
  "cloud_ended s =
     (case cloud_onended s of
        None \<Rightarrow> s
      | Some (index, configs) \<Rightarrow>
          let next = index + 1
          in start next configs (notify (OnLineEnd next) s))"

definition cloud_error :: "state \<Rightarrow> state" where
  "cloud_error s = notify (OnIsPlayingChange False) s"

text \<open>The promise of \<open>cloudAudio.play()\<close> rejects with an error of the given name.\<close>

definition cloud_play_rejected :: "string \<Rightarrow> state \<Rightarrow> state" where
  "cloud_play_rejected name s =
     (if name \<noteq> ''AbortError'' then call (ConsoleError ''Cloud playback error:'' name) s
      else call (ConsoleLog ''Cloud playback was interrupted by a new request'') s)"

definition silent_play_rejected :: "string \<Rightarrow> state \<Rightarrow> state" where
  "silent_play_rejected name s = call (ConsoleError ''Audio play failed:'' name) s"

text \<open>
  The handlers \<open>speak\<close> puts on an utterance. \<open>start\<close> and \<open>end\<close> are events of the
  utterance being spoken; \<open>cancel()\<close> drops it. The \<open>error\<close> handler is the same function
  for every utterance, so it may run for one that was cancelled as well: browsers report a
  cancelled utterance through \<open>error\<close>, which is why \<open>isRestarting\<close> guards it.
\<close>

definition utterance_onstart :: "state \<Rightarrow> state option" where
  "utterance_onstart s =
     (case synth_speaking s of
        None \<Rightarrow> None
      | Some u \<Rightarrow> Some (startHeartbeat (s\<lparr>tts_status := speaking\<rparr>)))"

definition utterance_onend :: "state \<Rightarrow> state option" where
  "utterance_onend s =
     (case synth_speaking s of
        None \<Rightarrow> None
      | Some u \<Rightarrow>
          let s1 = s\<lparr>synth_speaking := None\<rparr>;
              s2 = clearHeartbeat (s1\<lparr>tts_status := idle\<rparr>);
              next = fst (u_onEnd u) + 1
          in Some (start next (snd (u_onEnd u)) (notify (OnLineEnd next) s2)))"

definition utterance_onerror :: "state \<Rightarrow> state" where
  "utterance_onerror s =
     (let s1 = clearHeartbeat (s\<lparr>tts_status := idle\<rparr>)
      in if \<not> isRestarting s1 then notify (OnIsPlayingChange False) s1 else s1)"

text \<open>The utterance being spoken fails: the browser drops it and dispatches \<open>error\<close>.\<close>

definition utterance_failed :: "state \<Rightarrow> state option" where
  "utterance_failed s =
     (case synth_speaking s of
        None \<Rightarrow> None
      | Some u \<Rightarrow> Some (utterance_onerror (s\<lparr>synth_speaking := None\<rparr>)))"

definition heartbeat_tick :: "nat \<Rightarrow> state \<Rightarrow> state option" where
  "heartbeat_tick h s =
     (if h \<notin> set (intervals s) then None
      else if synth_speaking s \<noteq> None then Some (call SynthResume (call SynthPause s))
      else Some s)"

datatype action = ActPlay | ActPause | ActNextTrack | ActPreviousTrack

definition media_action :: "action \<Rightarrow> state \<Rightarrow> state option" where
  "media_action a s =
     (case ms_actionHandlers s of
        None \<Rightarrow> None
      | Some (index, configs) \<Rightarrow>
          (case a of
             ActPlay \<Rightarrow> Some (start index configs s)
           | ActPause \<Rightarrow> Some (pause s)
           | ActNextTrack \<Rightarrow>
               let next = min (index + 1) (int (length (lines configs)) - 1)
               in Some (resume next configs (notify (OnLineEnd next) s))
           | ActPreviousTrack \<Rightarrow>
               let prev = max (index - 1) 0
               in Some (resume prev configs (notify (OnLineEnd prev) s))))"

section \<open>Runs of the engine\<close>

text \<open>
  The engine is single-threaded: a run is a sequence of calls by the caller and of
  callbacks run by the browser, each to completion. The caller's listeners only record
  what they are told; between two steps the caller may assign or remove listeners, and
  time may pass.
\<close>

datatype event =
    Start int SpeechConfigs
  | Pause
  | Stop
  | Resume int SpeechConfigs
  | SetListeners "listener set"
  | Tick nat string
  | TimeoutFires nat
  | CloudEnded
  | CloudError
  | CloudPlayRejected string
  | SilentPlayRejected string
  | UtteranceStart
  | UtteranceEnd
  | UtteranceFailed
  | UtteranceInterrupted
  | HeartbeatTick nat
  | MediaAction action

definition or_same :: "state option \<Rightarrow> state \<Rightarrow> state" where
  "or_same r s = (case r of None \<Rightarrow> s | Some s' \<Rightarrow> s')"

fun step :: "event \<Rightarrow> state \<Rightarrow> state" where
  "step (Start index configs) s = start index configs s"
| "step Pause s = pause s"
| "step Stop s = stop s"
| "step (Resume index configs) s = resume index configs s"
| "step (SetListeners L) s = s\<lparr>listeners := L\<rparr>"
| "step (Tick d now) s = s\<lparr>clock := clock s + d, nowISO := now\<rparr>"
| "step (TimeoutFires h) s = or_same (timeout_fires h s) s"
| "step CloudEnded s = cloud_ended s"
| "step CloudError s = cloud_error s"
| "step (CloudPlayRejected name) s = cloud_play_rejected name s"
| "step (SilentPlayRejected name) s = silent_play_rejected name s"
| "step UtteranceStart s = or_same (utterance_onstart s) s"
| "step UtteranceEnd s = or_same (utterance_onend s) s"
| "step UtteranceFailed s = or_same (utterance_failed s) s"
| "step UtteranceInterrupted s = utterance_onerror s"
| "step (HeartbeatTick h) s = or_same (heartbeat_tick h s) s"
| "step (MediaAction a) s = or_same (media_action a s) s"

definition run :: "event list \<Rightarrow> state \<Rightarrow> state" where
  "run es s = fold step es s"

text \<open>The state the constructor leaves, on a browser with the given capabilities.\<close>

definition initial :: "bool \<Rightarrow> bool \<Rightarrow> string \<Rightarrow> state" where
  "initial mediaSession positionState now =
     \<lparr>tts_utterance = None, tts_heartbeatInterval = None, tts_status = idle,
      cloud_src = None, cloud_playbackRate = 1, cloud_onended = None,
      isRestarting = False, timer = None, currentBookId = None,
      listeners = {}, clock = 0, nextHandle = 1, timeouts = [], intervals = [],
      synth_speaking = None,
      hasMediaSession = mediaSession, hasSetPositionState = positionState,
      ms_playbackState = ps_none, ms_metadataWrites = 0, ms_positionState = None,
      ms_actionHandlers = None, nowISO = now, trace = []\<rparr>"

section \<open>Observations\<close>

text \<open>An adapter starts rendering a line: the cloud element plays, or the synthesis speaks.\<close>

fun starts_adapter :: "effect \<Rightarrow> bool" where
  "starts_adapter CloudPlay = True"
| "starts_adapter (SynthSpeak _ _) = True"
| "starts_adapter _ = False"

text \<open>The effects an operation adds to the trace.\<close>

definition effects_of :: "(state \<Rightarrow> state) \<Rightarrow> state \<Rightarrow> effect list" where
  "effects_of f s = drop (length (trace s)) (trace (f s))"

text \<open>
  Reading a decimal numeral back: the number a string of digits stands for. It says which
  index a cloud audio URL names.
\<close>

definition digit_value :: "char \<Rightarrow> nat" where
  "digit_value ch = length (takeWhile (\<lambda>d. d \<noteq> ch) ''0123456789'')"

definition decimal :: "string \<Rightarrow> nat" where
  "decimal ds = foldl (\<lambda>a ch. 10 * a + digit_value ch) 0 ds"

text \<open>
  At most one timer is set; it is the one \<open>this.timer\<close> names, and the restart guard is up
  while it is set.
\<close>

definition timer_inv :: "state \<Rightarrow> bool" where
  "timer_inv s =
     (length (timeouts s) \<le> 1 \<and>
      (\<forall>t \<in> set (timeouts s). timer s = Some (t_handle t) \<and> isRestarting s))"

text \<open>The configurations of the engine's test suite, and an engine whose caller listens.\<close>

definition voice1 :: VoiceOption where
  "voice1 = \<lparr>vtype = system, vid = ''voice1'', displayName = ''Voice 1'', enabled = True\<rparr>"

definition google1 :: VoiceOption where
  "google1 = \<lparr>vtype = cloud, vid = ''google-1'', displayName = ''Google Voice 1'', enabled = True\<rparr>"

definition mockConfigs :: SpeechConfigs where
  "mockConfigs =
     \<lparr>bookId = Some ''123'',
      lines = [''Line 1'', ''Line 2'', ''Line 3'', ''Line 4'', ''Line 5'',
               ''Line 6'', ''Line 7'', ''Line 8'', ''Line 9'', ''Line 10''],
      lang = Some ''en-US'', rate = Some 1, totalLines = Some 10, selectedVoice = Some voice1\<rparr>"

definition cloudConfigs :: SpeechConfigs where
  "cloudConfigs = mockConfigs\<lparr>selectedVoice := Some google1\<rparr>"

definition listening :: state where
  "listening = (initial True True ''2026-01-01T00:00:00.000Z'')\<lparr>listeners := UNIV\<rparr>"

section \<open>Basic facts\<close>

lemmas tts_defs = clearHeartbeat_def startHeartbeat_def tts_stop_def tts_speak_def clearInterval_def setInterval_def
lemmas svc_defs = stopCloud_def clearTimer_def clearTimeout_def pause_def stop_def clearMediaSession_def
  updateActionHandlers_def setupMediaSession_def startCloudSpeech_def startSystemSpeech_def

subsection \<open>The listeners are the caller's\<close>

lemma heard_if_listeners: "listeners s' = listeners s \<Longrightarrow> heard s' e = heard s e"
  by (simp add: heard_def split: option.splits)

lemma listeners_call [simp]: "listeners (call e s) = listeners s"
  by (simp add: call_def)

lemma listeners_notify [simp]: "listeners (notify e s) = listeners s"
  by (simp add: notify_def)

lemma listeners_tts_stop [simp]: "listeners (tts_stop s) = listeners s"
  by (simp add: tts_defs Let_def split: option.splits)

lemma listeners_stopCloud [simp]: "listeners (stopCloud s) = listeners s"
  by (simp add: svc_defs Let_def)

lemma listeners_pause [simp]: "listeners (pause s) = listeners s"
  by (simp add: pause_def clearTimer_def clearTimeout_def Let_def split: option.splits)

lemma listeners_setupMediaSession [simp]: "listeners (setupMediaSession i c s) = listeners s"
  by (simp add: svc_defs Let_def)

lemma heard_notify [simp]: "heard (notify e' s) e = heard s e"
  by (rule heard_if_listeners) simp

lemma heard_pause [simp]: "heard (pause s) e = heard s e"
  by (rule heard_if_listeners) simp

lemma heard_trace [simp]: "heard (s\<lparr>trace := t\<rparr>) e = heard s e"
  by (rule heard_if_listeners) simp

subsection \<open>What each operation adds to the trace\<close>

lemma trace_call [simp]: "trace (call e s) = trace s @ [e]"
  by (simp add: call_def)

lemma trace_notify: "trace (notify e s) = trace s @ filter (heard s) [e]"
  by (simp add: notify_def)

lemma trace_tts_stop [simp]: "trace (tts_stop s) = trace s @ [SynthCancel]"
  by (simp add: tts_defs call_def Let_def split: option.splits)

lemma trace_stopCloud [simp]: "trace (stopCloud s) = trace s @ [CloudPause, CloudSetOnended None, CloudRemoveSrc, CloudLoad]"
  by (simp add: svc_defs call_def Let_def)

lemma trace_pause [simp]:
  "trace (pause s) = trace s @ [SilentPause, CloudPause, CloudSetOnended None, CloudRemoveSrc, CloudLoad, SynthCancel]"
  by (simp add: pause_def clearTimer_def clearTimeout_def Let_def split: option.splits)

lemma trace_setupMediaSession [simp]: "trace (setupMediaSession i c s) = trace s"
  by (simp add: svc_defs Let_def)

lemma trace_play_extends: "\<exists>es. trace (play i c s) = trace s @ es"
  by (simp add: play_def trace_notify startCloudSpeech_def startSystemSpeech_def tts_speak_def Let_def split: option.splits)

lemma effects_of_append: "trace (f s) = trace s @ es \<Longrightarrow> effects_of f s = es"
  by (simp add: effects_of_def)

lemma notify_notify: "notify e2 (notify e1 s) = s\<lparr>trace := trace s @ filter (heard s) [e1, e2]\<rparr>"
  by (simp add: notify_def call_def)

lemma notify_3: "notify e3 (notify e2 (notify e1 s)) = s\<lparr>trace := trace s @ filter (heard s) [e1, e2, e3]\<rparr>"
  by (simp add: notify_def call_def)

lemma heard_listening [simp]: "heard listening e = (listener_of e \<noteq> None)"
  by (simp add: heard_def listening_def split: option.splits)

lemma trace_startCloudSpeech [simp]:
  "trace (startCloudSpeech i c v s) =
     trace s @ [CloudPause, CloudSetSrc (cloudSrc i c v), CloudSetOnended (Some (i, c)), CloudPlay]"
  by (simp add: startCloudSpeech_def Let_def call_def)

lemma trace_startSystemSpeech [simp]:
  "trace (startSystemSpeech i c v s) =
     trace s @ [SynthCancel, SynthSpeak (line_at c i) (if vid v = [] then None else Some (vid v))]"
  by (simp add: startSystemSpeech_def tts_speak_def new_utterance_def Let_def call_def)

lemma cloud_tts_stop [simp]:
  "cloud_src (tts_stop s) = cloud_src s" "cloud_onended (tts_stop s) = cloud_onended s"
  by (simp_all add: tts_defs call_def Let_def split: option.splits)

lemma cloud_stopCloud [simp]:
  "cloud_src (stopCloud s) = None" "cloud_onended (stopCloud s) = None"
  by (simp_all add: stopCloud_def call_def Let_def)

lemma cloud_startCloudSpeech [simp]:
  "cloud_src (startCloudSpeech i c v s) = Some (cloudSrc i c v)"
  "cloud_onended (startCloudSpeech i c v s) = Some (i, c)"
  by (simp_all add: startCloudSpeech_def call_def Let_def)

lemma cloud_startSystemSpeech [simp]:
  "cloud_src (startSystemSpeech i c v s) = cloud_src s"
  "cloud_onended (startSystemSpeech i c v s) = cloud_onended s"
  by (simp_all add: startSystemSpeech_def tts_defs call_def Let_def split: option.splits)

lemma synth_speaking_tts_stop [simp]: "synth_speaking (tts_stop s) = None"
  by (simp add: tts_defs call_def Let_def split: option.splits)

lemma synth_speaking_startCloudSpeech [simp]:
  "synth_speaking (startCloudSpeech i c v s) = synth_speaking s"
  by (simp add: startCloudSpeech_def call_def Let_def)

lemma new_utterance_fields [simp]:
  "u_text (new_utterance text configs voice onEnd) = text"
  "u_voice (new_utterance text configs voice onEnd) = (if voice = [] then None else Some voice)"
  "u_onEnd (new_utterance text configs voice onEnd) = onEnd"
  by (simp_all add: new_utterance_def)

lemma synth_speaking_startSystemSpeech [simp]:
  "synth_speaking (startSystemSpeech i c v s) = Some (new_utterance (line_at c i) c (vid v) (i, c))"
  by (simp add: startSystemSpeech_def tts_speak_def call_def Let_def)

text \<open>What \<open>play\<close> does once all its checks have passed.\<close>

lemma play_dispatch:
  assumes "bookId c = Some b" and "b \<noteq> []" and "totalLines c = Some n"
    and "selectedVoice c = Some v" and "0 \<le> index" and "index < n"
    and "index < int (length (lines c))"
  shows "play index c s =
     (let s1 = call SilentPlay s;
          s2 = setupMediaSession index c s1;
          s3 = (if hasMediaSession s2 then s2\<lparr>ms_playbackState := ps_playing\<rparr> else s2)
      in case vtype v of
           cloud \<Rightarrow> startCloudSpeech index c v (tts_stop s3)
         | system \<Rightarrow> startSystemSpeech index c v (stopCloud s3))"
  using assms by (cases "vtype v") (auto simp add: play_def falsy_string_def Let_def)

lemma trace_play_dispatch:
  assumes "bookId c = Some b" and "b \<noteq> []" and "totalLines c = Some n"
    and "selectedVoice c = Some v" and "0 \<le> index" and "index < n"
    and "index < int (length (lines c))"
  shows "trace (play index c s) = trace s @ SilentPlay #
     (case vtype v of
        cloud \<Rightarrow> [SynthCancel, CloudPause, CloudSetSrc (cloudSrc index c v),
                   CloudSetOnended (Some (index, c)), CloudPlay]
      | system \<Rightarrow> [CloudPause, CloudSetOnended None, CloudRemoveSrc, CloudLoad, SynthCancel,
                    SynthSpeak (Some (lines c ! nat index)) (if vid v = [] then None else Some (vid v))])"
  using assms by (cases "vtype v") (simp_all add: play_dispatch Let_def line_at_def)

lemma string_of_int_0 [simp]: "string_of_int 0 = ''0''"
  by (simp add: string_of_int_def digit_def)

lemma play_not_ready:
  assumes "falsy_string (bookId c) \<or> totalLines c = None \<or> totalLines c = Some 0 \<or> selectedVoice c = None"
  shows "play index c s = s"
  using assms by (auto simp add: play_def split: option.splits)

lemma effects_of_start:
  "effects_of (start index c) s =
     filter (heard s) [OnIsPlayingChange True] @ effects_of (play index c) (notify (OnIsPlayingChange True) s)"
proof -
  obtain es where es: "trace (play index c (notify (OnIsPlayingChange True) s)) =
      trace (notify (OnIsPlayingChange True) s) @ es"
    using trace_play_extends by blast
  then have "effects_of (play index c) (notify (OnIsPlayingChange True) s) = es"
    by (rule effects_of_append)
  moreover have "effects_of (start index c) s = filter (heard s) [OnIsPlayingChange True] @ es"
    by (rule effects_of_append) (simp add: start_def es trace_notify)
  ultimately show ?thesis by simp
qed

lemma effects_of_same [simp]: "effects_of (\<lambda>s. s) s = []"
  by (simp add: effects_of_def)

lemma effects_of_start_not_ready:
  assumes "falsy_string (bookId c) \<or> totalLines c = None \<or> totalLines c = Some 0 \<or> selectedVoice c = None"
  shows "effects_of (start index c) s = filter (heard s) [OnIsPlayingChange True]"
  by (rule effects_of_append) (simp add: start_def play_not_ready [OF assms] trace_notify)

lemma timers_notify [simp]:
  "timeouts (notify e s) = timeouts s" "timer (notify e s) = timer s" "isRestarting (notify e s) = isRestarting s"
  by (simp_all add: notify_def call_def)

lemma timers_tts_stop [simp]:
  "timeouts (tts_stop s) = timeouts s" "timer (tts_stop s) = timer s" "isRestarting (tts_stop s) = isRestarting s"
  by (simp_all add: tts_defs call_def Let_def split: option.splits)

lemma timers_stopCloud [simp]:
  "timeouts (stopCloud s) = timeouts s" "timer (stopCloud s) = timer s" "isRestarting (stopCloud s) = isRestarting s"
  by (simp_all add: stopCloud_def call_def Let_def)

lemma timeouts_clearTimer:
  "timeouts (clearTimer s) = filter (\<lambda>t. Some (t_handle t) \<noteq> timer s) (timeouts s)"
  by (simp add: clearTimer_def clearTimeout_def split: option.splits)

lemma timers_clearTimer [simp]:
  "timer (clearTimer s) = timer s" "isRestarting (clearTimer s) = isRestarting s"
  by (simp_all add: clearTimer_def clearTimeout_def split: option.splits)

lemma timers_pause [simp]:
  "timeouts (pause s) = timeouts (clearTimer s)" "timer (pause s) = timer s" "isRestarting (pause s) = isRestarting s"
  by (simp_all add: pause_def call_def Let_def)

lemma after_pause [simp]:
  "cloud_src (pause s) = None" "cloud_onended (pause s) = None" "synth_speaking (pause s) = None"
  by (simp_all add: pause_def Let_def)

lemma after_notify [simp]:
  "cloud_src (notify e s) = cloud_src s" "cloud_onended (notify e s) = cloud_onended s"
  "synth_speaking (notify e s) = synth_speaking s"
  by (simp_all add: notify_def call_def)

lemma listening_fields [simp]:
  "timeouts listening = []" "timer listening = None" "isRestarting listening = False"
  "nowISO listening = ''2026-01-01T00:00:00.000Z''" "listeners listening = UNIV"
  "trace listening = []" "cloud_onended listening = None" "synth_speaking listening = None"
  "clock listening = 0" "nextHandle listening = 1" "hasMediaSession listening"
  by (simp_all add: listening_def initial_def)

subsection \<open>The timer invariant is kept by every step\<close>

lemma timer_inv_cong:
  "timeouts s' = timeouts s \<Longrightarrow> timer s' = timer s \<Longrightarrow> isRestarting s' = isRestarting s
   \<Longrightarrow> timer_inv s' = timer_inv s"
  by (simp add: timer_inv_def)

lemma timer_inv_no_timeouts: "timeouts s = [] \<Longrightarrow> timer_inv s"
  by (simp add: timer_inv_def)

lemma timers_call [simp]:
  "timeouts (call e s) = timeouts s" "timer (call e s) = timer s" "isRestarting (call e s) = isRestarting s"
  by (simp_all add: call_def)

lemma timers_clearHeartbeat [simp]:
  "timeouts (clearHeartbeat s) = timeouts s" "timer (clearHeartbeat s) = timer s"
  "isRestarting (clearHeartbeat s) = isRestarting s"
  by (simp_all add: clearHeartbeat_def clearInterval_def split: option.splits)

lemma timers_startHeartbeat [simp]:
  "timeouts (startHeartbeat s) = timeouts s" "timer (startHeartbeat s) = timer s"
  "isRestarting (startHeartbeat s) = isRestarting s"
  by (simp_all add: startHeartbeat_def setInterval_def Let_def)

lemma timers_setupMediaSession [simp]:
  "timeouts (setupMediaSession i c s) = timeouts s" "timer (setupMediaSession i c s) = timer s"
  "isRestarting (setupMediaSession i c s) = isRestarting s"
  by (simp_all add: setupMediaSession_def updateActionHandlers_def Let_def)

lemma timers_startCloudSpeech [simp]:
  "timeouts (startCloudSpeech i c v s) = timeouts s" "timer (startCloudSpeech i c v s) = timer s"
  "isRestarting (startCloudSpeech i c v s) = isRestarting s"
  by (simp_all add: startCloudSpeech_def call_def Let_def)

lemma timers_startSystemSpeech [simp]:
  "timeouts (startSystemSpeech i c v s) = timeouts s" "timer (startSystemSpeech i c v s) = timer s"
  "isRestarting (startSystemSpeech i c v s) = isRestarting s"
  by (simp_all add: startSystemSpeech_def tts_speak_def call_def Let_def)

lemma timers_play:
  "timer (play i c s) = timer s" "isRestarting (play i c s) = isRestarting s"
  "timeouts (play i c s) = timeouts s \<or> timeouts (play i c s) = timeouts (clearTimer s)"
  by (simp_all add: play_def Let_def split: option.splits)

lemma timer_inv_clearTimer: "timer_inv s \<Longrightarrow> timeouts (clearTimer s) = []"
  by (auto simp add: timer_inv_def timeouts_clearTimer filter_empty_conv)

lemma timeouts_play_none: "timeouts s = [] \<Longrightarrow> timeouts (play i c s) = []"
  using timers_play(3) [of i c s] by (auto simp add: timeouts_clearTimer)

lemma timer_inv_play: "timer_inv s \<Longrightarrow> timer_inv (play i c s)"
  using timers_play [of i c s]
  by (auto simp add: timer_inv_clearTimer timer_inv_no_timeouts cong: timer_inv_cong)

lemma timer_inv_notify [simp]: "timer_inv (notify e s) = timer_inv s"
  by (rule timer_inv_cong) simp_all

lemma timer_inv_call [simp]: "timer_inv (call e s) = timer_inv s"
  by (rule timer_inv_cong) simp_all

lemma timer_inv_start: "timer_inv s \<Longrightarrow> timer_inv (start i c s)"
  by (simp add: start_def timer_inv_play)

lemma timer_inv_pause: "timer_inv s \<Longrightarrow> timer_inv (pause s)"
  by (simp add: timer_inv_no_timeouts timer_inv_clearTimer)

lemma timeouts_stop: "timeouts (stop s) = timeouts (clearTimer (s\<lparr>isRestarting := False\<rparr>))"
  by (simp add: stop_def Let_def clearMediaSession_def)

lemma timer_inv_stop: "timer_inv s \<Longrightarrow> timer_inv (stop s)"
proof -
  assume "timer_inv s"
  then have "timeouts (clearTimer s) = []"
    by (rule timer_inv_clearTimer)
  then have "timeouts (stop s) = []"
    by (simp add: timeouts_stop timeouts_clearTimer)
  then show ?thesis
    by (rule timer_inv_no_timeouts)
qed

lemma resume_timers:
  "timeouts (resume i c s) =
     timeouts (clearTimer s) @ [\<lparr>t_handle = nextHandle s, t_due = clock s + 1000, t_play = (i, c)\<rparr>]"
  "timer (resume i c s) = Some (nextHandle s)"
  "isRestarting (resume i c s)"
  by (simp_all add: resume_def setTimeout_def pause_def tts_defs stopCloud_def clearTimer_def
      clearTimeout_def call_def Let_def split: option.splits)

lemma resume_env:
  "clock (resume i c s) = clock s" "nextHandle (resume i c s) = nextHandle s + 1"
  by (simp_all add: resume_def setTimeout_def pause_def tts_defs stopCloud_def clearTimer_def
      clearTimeout_def call_def Let_def split: option.splits)

lemma timer_inv_resume: "timer_inv s \<Longrightarrow> timer_inv (resume i c s)"
  by (simp add: timer_inv_def resume_timers timer_inv_clearTimer [unfolded timer_inv_def])

lemma timer_inv_timeout_fires: "timer_inv s \<Longrightarrow> timeout_fires h s = Some s' \<Longrightarrow> timer_inv s'"
proof -
  assume inv: "timer_inv s" and fires: "timeout_fires h s = Some s'"
  from fires obtain t where t: "find (\<lambda>t. t_handle t = h) (timeouts s) = Some t"
    and s': "s' = (play (fst (t_play t)) (snd (t_play t)) (clearTimeout h s))\<lparr>isRestarting := False\<rparr>"
    by (auto simp add: timeout_fires_def Let_def split: option.splits if_splits)
  from t have "t \<in> set (timeouts s)" and "t_handle t = h"
    by (auto simp add: find_Some_iff in_set_conv_nth)
  with inv have "timeouts s = [t]"
    by (cases "timeouts s") (auto simp add: timer_inv_def)
  with \<open>t_handle t = h\<close> have "timeouts (clearTimeout h s) = []"
    by (simp add: clearTimeout_def)
  then have "timeouts s' = []"
    by (simp add: s' timeouts_play_none)
  then show ?thesis
    by (rule timer_inv_no_timeouts)
qed

lemma timers_utterance_onerror [simp]:
  "timeouts (utterance_onerror s) = timeouts s" "timer (utterance_onerror s) = timer s"
  "isRestarting (utterance_onerror s) = isRestarting s"
  by (simp_all add: utterance_onerror_def Let_def)

lemma timer_inv_utterance_onerror: "timer_inv s \<Longrightarrow> timer_inv (utterance_onerror s)"
  by (simp cong: timer_inv_cong)

lemma timer_inv_media_action: "timer_inv s \<Longrightarrow> media_action a s = Some s' \<Longrightarrow> timer_inv s'"
  by (cases a)
     (auto simp add: media_action_def Let_def timer_inv_start timer_inv_pause timer_inv_resume
        split: option.splits)

lemma timer_inv_step: "timer_inv s \<Longrightarrow> timer_inv (step e s)"
proof (cases e)
  case (TimeoutFires h)
  assume "timer_inv s"
  then show ?thesis
    using TimeoutFires by (cases "timeout_fires h s") (auto simp add: or_same_def timer_inv_timeout_fires)
next
  case UtteranceStart
  assume "timer_inv s"
  then show ?thesis
    using UtteranceStart by (simp add: or_same_def utterance_onstart_def timer_inv_def split: option.splits)
next
  case UtteranceEnd
  assume "timer_inv s"
  then have "timer_inv (clearHeartbeat (s\<lparr>synth_speaking := None, tts_status := idle\<rparr>))"
    by (simp add: timer_inv_def)
  then show ?thesis
    using UtteranceEnd \<open>timer_inv s\<close>
    by (simp add: or_same_def utterance_onend_def Let_def timer_inv_start split: option.splits)
next
  case UtteranceFailed
  assume "timer_inv s"
  then have "timer_inv (s\<lparr>synth_speaking := None\<rparr>)"
    by (simp add: timer_inv_def)
  then show ?thesis
    using UtteranceFailed \<open>timer_inv s\<close>
    by (simp add: or_same_def utterance_failed_def timer_inv_utterance_onerror split: option.splits)
next
  case (MediaAction a)
  assume "timer_inv s"
  then show ?thesis
    using MediaAction by (cases "media_action a s") (auto simp add: or_same_def timer_inv_media_action)
next
  case (HeartbeatTick h)
  assume "timer_inv s"
  then show ?thesis
    using HeartbeatTick by (simp add: or_same_def heartbeat_tick_def)
next
  case CloudEnded
  assume "timer_inv s"
  then show ?thesis
    using CloudEnded by (simp add: cloud_ended_def Let_def timer_inv_start split: option.splits prod.splits)
qed (simp_all add: timer_inv_start timer_inv_pause timer_inv_stop timer_inv_resume
      timer_inv_utterance_onerror cloud_error_def cloud_play_rejected_def silent_play_rejected_def,
     simp_all add: timer_inv_def)

lemma timer_inv_run: "timer_inv s \<Longrightarrow> timer_inv (run es s)"
  unfolding run_def by (induction es arbitrary: s) (simp_all add: timer_inv_step)

lemma timer_inv_initial: "timer_inv (initial m p now)"
  by (simp add: timer_inv_def initial_def)

lemma timeout_fires_single:
  assumes "timeouts s = [t]"
  shows "timeout_fires h s =
     (if h = t_handle t \<and> t_due t \<le> clock s
      then Some ((play (fst (t_play t)) (snd (t_play t)) (s\<lparr>timeouts := []\<rparr>))\<lparr>isRestarting := False\<rparr>)
      else None)"
  using assms by (auto simp add: timeout_fires_def clearTimeout_def Let_def)

lemma timeouts_resume_inv:
  "timer_inv s \<Longrightarrow>
   timeouts (resume i c s) = [\<lparr>t_handle = nextHandle s, t_due = clock s + 1000, t_play = (i, c)\<rparr>]"
  by (simp add: resume_timers timer_inv_clearTimer)

lemma nowISO_notify [simp]: "nowISO (notify e s) = nowISO s"
  by (simp add: notify_def call_def)

lemma start_past_the_end:
  assumes "bookId c = Some b" and "b \<noteq> []" and "totalLines c = Some n" and "n \<noteq> 0"
    and "selectedVoice c = Some v" and "index < 0 \<or> index \<ge> n"
  shows "trace (start index c s) = trace s @ filter (heard s)
               [OnIsPlayingChange True, OnIsPlayingChange False, OnBookCompleted (nowISO s)]"
  using assms by (simp add: start_def play_def falsy_string_def notify_3)

lemma env_call [simp]: "nowISO (call e s) = nowISO s"
  by (simp add: call_def)

lemma env_tts_stop [simp]: "nowISO (tts_stop s) = nowISO s"
  by (simp add: tts_defs call_def Let_def split: option.splits)

lemma env_stopCloud [simp]: "nowISO (stopCloud s) = nowISO s"
  by (simp add: stopCloud_def call_def Let_def)

lemma env_pause [simp]: "nowISO (pause s) = nowISO s"
  by (simp add: pause_def clearTimer_def clearTimeout_def call_def Let_def split: option.splits)

lemma env_setupMediaSession [simp]: "nowISO (setupMediaSession i c s) = nowISO s"
  by (simp add: setupMediaSession_def updateActionHandlers_def Let_def)

lemma env_startCloudSpeech [simp]:
  "nowISO (startCloudSpeech i c v s) = nowISO s" "listeners (startCloudSpeech i c v s) = listeners s"
  by (simp_all add: startCloudSpeech_def call_def Let_def)

lemma env_startSystemSpeech [simp]:
  "nowISO (startSystemSpeech i c v s) = nowISO s" "listeners (startSystemSpeech i c v s) = listeners s"
  by (simp_all add: startSystemSpeech_def tts_speak_def call_def Let_def)

lemma env_play [simp]: "nowISO (play i c s) = nowISO s" "listeners (play i c s) = listeners s"
  by (simp_all add: play_def Let_def split: option.splits)

lemma env_start [simp]: "nowISO (start i c s) = nowISO s" "listeners (start i c s) = listeners s"
  by (simp_all add: start_def)

lemma heard_start [simp]: "heard (start i c s) e = heard s e"
  by (rule heard_if_listeners) simp

lemma start_dispatch_state:
  assumes "bookId c = Some b" and "b \<noteq> []" and "totalLines c = Some n"
    and "selectedVoice c = Some v" and "0 \<le> index" and "index < n"
    and "index < int (length (lines c))"
  shows "vtype v = cloud \<Longrightarrow> cloud_onended (start index c s) = Some (index, c)"
    and "vtype v = system \<Longrightarrow>
         synth_speaking (start index c s) = Some (new_utterance (line_at c index) c (vid v) (index, c))"
  by (simp_all add: start_def play_dispatch [OF assms] Let_def)

lemma clearHeartbeat_fields [simp]:
  "trace (clearHeartbeat s) = trace s" "listeners (clearHeartbeat s) = listeners s"
  "nowISO (clearHeartbeat s) = nowISO s"
  by (simp_all add: clearHeartbeat_def clearInterval_def split: option.splits)

lemma mockConfigs_fields [simp]:
  "bookId mockConfigs = Some ''123''" "totalLines mockConfigs = Some 10"
  "selectedVoice mockConfigs = Some voice1" "length (lines mockConfigs) = 10"
  "bookId cloudConfigs = Some ''123''" "totalLines cloudConfigs = Some 10"
  "selectedVoice cloudConfigs = Some google1" "length (lines cloudConfigs) = 10"
  "vtype voice1 = system" "vtype google1 = cloud"
  by (simp_all add: mockConfigs_def cloudConfigs_def voice1_def google1_def)

subsection \<open>The shapes a play can take\<close>

lemma play_shape:
  obtains (idle) "play i c s = s"
    | (over) "play i c s = notify (OnBookCompleted (nowISO s)) (notify (OnIsPlayingChange False) s)"
    | (gap) "play i c s = notify (OnLoadMoreLines i) (pause s)"
    | (go) b n v where "bookId c = Some b" "b \<noteq> []" "totalLines c = Some n"
        "selectedVoice c = Some v" "0 \<le> i" "i < n" "i < int (length (lines c))"
proof (cases "falsy_string (bookId c) \<or> totalLines c = None \<or> totalLines c = Some 0
    \<or> selectedVoice c = None")
  case True
  then have "play i c s = s"
    by (rule play_not_ready)
  then show ?thesis by (rule idle)
next
  case False
  then obtain b n v where ok: "bookId c = Some b" "b \<noteq> []" "totalLines c = Some n" "n \<noteq> 0"
      "selectedVoice c = Some v"
    by (auto simp add: falsy_string_def split: option.splits)
  show ?thesis
  proof (cases "i < 0 \<or> n \<le> i")
    case True
    with ok have "play i c s = notify (OnBookCompleted (nowISO s)) (notify (OnIsPlayingChange False) s)"
      by (simp add: play_def falsy_string_def)
    then show ?thesis by (rule over)
  next
    case inside: False
    show ?thesis
    proof (cases "int (length (lines c)) \<le> i")
      case True
      with ok inside have "play i c s = notify (OnLoadMoreLines i) (pause s)"
        by (simp add: play_def falsy_string_def)
      then show ?thesis by (rule gap)
    next
      case False
      with ok inside show ?thesis
        by (intro go [of b n v]) simp_all
    qed
  qed
qed

lemma play_effects_cases:
  "(effects_of (play i c) s = [] \<and> cloud_onended (play i c s) = cloud_onended s)
   \<or> (effects_of (play i c) s = filter (heard s) [OnIsPlayingChange False, OnBookCompleted (nowISO s)]
       \<and> cloud_onended (play i c s) = cloud_onended s)
   \<or> (effects_of (play i c) s =
         [SilentPause, CloudPause, CloudSetOnended None, CloudRemoveSrc, CloudLoad, SynthCancel]
         @ filter (heard s) [OnLoadMoreLines i]
       \<and> cloud_onended (play i c s) = None)
   \<or> (\<exists>v. effects_of (play i c) s =
         [SilentPlay, SynthCancel, CloudPause, CloudSetSrc (cloudSrc i c v),
          CloudSetOnended (Some (i, c)), CloudPlay]
       \<and> cloud_onended (play i c s) = Some (i, c))
   \<or> (\<exists>t v. effects_of (play i c) s =
         [SilentPlay, CloudPause, CloudSetOnended None, CloudRemoveSrc, CloudLoad, SynthCancel,
          SynthSpeak t v]
       \<and> cloud_onended (play i c s) = None)"
proof -
  note play_shape [of i c s]
  then show ?thesis
  proof cases
    case idle
    then show ?thesis by (simp add: effects_of_def)
  next
    case over
    then have "effects_of (play i c) s = filter (heard s) [OnIsPlayingChange False, OnBookCompleted (nowISO s)]"
      by (intro effects_of_append) (simp add: notify_notify)
    with over show ?thesis by simp
  next
    case gap
    then have "effects_of (play i c) s =
         [SilentPause, CloudPause, CloudSetOnended None, CloudRemoveSrc, CloudLoad, SynthCancel]
         @ filter (heard s) [OnLoadMoreLines i]"
      by (intro effects_of_append) (simp add: trace_notify)
    with gap show ?thesis by simp
  next
    case (go b n v)
    note t = trace_play_dispatch [OF go, of s] and p = play_dispatch [OF go, of s]
    show ?thesis
    proof (cases "vtype v")
      case cloud
      with t have "effects_of (play i c) s =
         [SilentPlay, SynthCancel, CloudPause, CloudSetSrc (cloudSrc i c v),
          CloudSetOnended (Some (i, c)), CloudPlay]"
        by (intro effects_of_append) simp
      moreover from cloud p have "cloud_onended (play i c s) = Some (i, c)"
        by (simp add: Let_def)
      ultimately show ?thesis by blast
    next
      case system
      with t have "effects_of (play i c) s =
         [SilentPlay, CloudPause, CloudSetOnended None, CloudRemoveSrc, CloudLoad, SynthCancel,
          SynthSpeak (Some (lines c ! nat i)) (if vid v = [] then None else Some (vid v))]"
        by (intro effects_of_append) simp
      moreover from system p have "cloud_onended (play i c s) = None"
        by (simp add: Let_def)
      ultimately show ?thesis by blast
    qed
  qed
qed

lemma start_supersedes:
  assumes "filter starts_adapter (effects_of (start i c) s) \<noteq> []"
  shows "(cloud_onended (start i c s) = None \<or> cloud_onended (start i c s) = Some (i, c))
     \<and> CloudSetOnended (cloud_onended (start i c s))
         \<in> set (takeWhile (\<lambda>e. \<not> starts_adapter e) (effects_of (start i c) s))"
  using assms play_effects_cases [of i c "notify (OnIsPlayingChange True) s"]
  by (auto simp add: effects_of_start start_def)

lemma play_no_line_end:
  "filter (\<lambda>e. listener_of e = Some LineEnd) (effects_of (play i c) s) = []"
  using play_effects_cases [of i c s] by auto

lemma cloud_onended_stop [simp]: "cloud_onended (stop s) = None"
  by (simp add: stop_def Let_def clearMediaSession_def)

lemma cloud_onended_start_cases:
  "cloud_onended (start i c s) = cloud_onended s \<or> cloud_onended (start i c s) = None
   \<or> cloud_onended (start i c s) = Some (i, c)"
  using play_effects_cases [of i c "notify (OnIsPlayingChange True) s"]
  by (auto simp add: start_def)

lemma effects_of_cloud_ended:
  assumes "cloud_onended s = Some (i, c)"
  shows "effects_of cloud_ended s =
          filter (heard s) [OnLineEnd (i + 1), OnIsPlayingChange True]
          @ effects_of (play (i + 1) c) (notify (OnIsPlayingChange True) (notify (OnLineEnd (i + 1)) s))"
proof -
  have eq: "cloud_ended s = start (i + 1) c (notify (OnLineEnd (i + 1)) s)"
    using assms by (simp add: cloud_ended_def Let_def)
  obtain es where es: "trace (play (i + 1) c (notify (OnIsPlayingChange True) (notify (OnLineEnd (i + 1)) s))) =
      trace (notify (OnIsPlayingChange True) (notify (OnLineEnd (i + 1)) s)) @ es"
    using trace_play_extends by blast
  then have "effects_of (play (i + 1) c) (notify (OnIsPlayingChange True) (notify (OnLineEnd (i + 1)) s)) = es"
    by (rule effects_of_append)
  moreover have "effects_of cloud_ended s = filter (heard s) [OnLineEnd (i + 1), OnIsPlayingChange True] @ es"
    by (rule effects_of_append) (simp add: eq start_def es trace_notify)
  ultimately show ?thesis by simp
qed

lemma effects_of_start_dispatch:
  assumes "bookId c = Some b" and "b \<noteq> []" and "totalLines c = Some n"
    and "selectedVoice c = Some v" and "0 \<le> index" and "index < n"
    and "index < int (length (lines c))"
  shows "effects_of (start index c) s =
           filter (heard s) [OnIsPlayingChange True] @ SilentPlay #
           (case vtype v of
              cloud \<Rightarrow> [SynthCancel, CloudPause, CloudSetSrc (cloudSrc index c v),
                         CloudSetOnended (Some (index, c)), CloudPlay]
            | system \<Rightarrow> [CloudPause, CloudSetOnended None, CloudRemoveSrc, CloudLoad, SynthCancel,
                          SynthSpeak (Some (lines c ! nat index)) (if vid v = [] then None else Some (vid v))])"
  by (rule effects_of_append) (simp add: start_def trace_play_dispatch [OF assms] trace_notify)

subsection \<open>The URL of a line names its index\<close>

lemma digit_value_nth: "k < 10 \<Longrightarrow> digit_value (''0123456789'' ! k) = k"
proof -
  assume "k < 10"
  then have "k \<in> {0, 1, 2, 3, 4, 5, 6, 7, 8, 9}"
    by auto
  then show ?thesis
    by (auto simp add: digit_value_def)
qed

lemma digit_value_digit: "digit_value (digit n) = n mod 10"
  by (simp add: digit_def digit_value_nth)

lemma decimal_snoc: "decimal (ds @ [ch]) = 10 * decimal ds + digit_value ch"
  by (simp add: decimal_def)

lemma decimal_string_of_nat: "decimal (string_of_nat n) = n"
proof (induction n rule: string_of_nat.induct)
  case (1 n)
  show ?case
  proof (cases "n < 10")
    case True
    then have "string_of_nat n = [digit n]"
      by (subst string_of_nat.simps) simp
    with True show ?thesis
      by (simp add: decimal_def digit_value_digit)
  next
    case False
    then have s: "string_of_nat n = string_of_nat (n div 10) @ [digit n]"
      by (subst string_of_nat.simps) simp
    from 1 False have "decimal (string_of_nat (n div 10)) = n div 10"
      by blast
    then have "decimal (string_of_nat n) = 10 * (n div 10) + n mod 10"
      by (simp only: s decimal_snoc digit_value_digit)
    then show ?thesis
      by simp
  qed
qed

lemma cloudSrc_reads_index:
  assumes "bookId c = Some b" and "0 \<le> index"
  shows "\<exists>ds. cloudSrc index c v = ''/api/books/'' @ b @ ''/audio/'' @ ds @ ''?voice='' @ vid v
          \<and> decimal ds = nat index"
proof (intro exI conjI)
  show "cloudSrc index c v =
      ''/api/books/'' @ b @ ''/audio/'' @ string_of_nat (nat index) @ ''?voice='' @ vid v"
    using assms by (simp add: cloudSrc_def string_of_int_def del: string_of_nat.simps)
  show "decimal (string_of_nat (nat index)) = nat index"
    by (rule decimal_string_of_nat)
qed

subsection \<open>The utterance a play leaves speaking\<close>

lemma after_stop [simp]: "synth_speaking (stop s) = None" "listeners (stop s) = listeners s"
  by (simp_all add: stop_def Let_def clearMediaSession_def clearTimer_def clearTimeout_def split: option.splits)

lemma heard_stop [simp]: "heard (stop s) e = heard s e"
  by (rule heard_if_listeners) simp

lemma synth_speaking_play_cases:
  "(synth_speaking (play i c s) = synth_speaking s \<and> filter starts_adapter (effects_of (play i c) s) = [])
   \<or> synth_speaking (play i c s) = None
   \<or> synth_speaking (play i c s) = Some (new_utterance (line_at c i) c (vid (the (selectedVoice c))) (i, c))"
proof -
  note play_shape [of i c s]
  then show ?thesis
  proof cases
    case idle
    then show ?thesis by (simp add: effects_of_def)
  next
    case over
    then have "effects_of (play i c) s = filter (heard s) [OnIsPlayingChange False, OnBookCompleted (nowISO s)]"
      by (intro effects_of_append) (simp add: notify_notify)
    with over show ?thesis by (simp add: notify_notify)
  next
    case gap
    then show ?thesis by simp
  next
    case (go b n v)
    note p = play_dispatch [OF go, of s]
    show ?thesis
    proof (cases "vtype v")
      case cloud
      with p show ?thesis by (simp add: Let_def)
    next
      case system
      with p go(4) show ?thesis by (simp add: Let_def)
    qed
  qed
qed

lemma start_cancels_speech:
  assumes "filter starts_adapter (effects_of (start i c) s) \<noteq> []"
  shows "(synth_speaking (start i c s) = None
          \<or> (\<exists>u. synth_speaking (start i c s) = Some u \<and> u_onEnd u = (i, c)))
     \<and> SynthCancel \<in> set (takeWhile (\<lambda>e. \<not> starts_adapter e) (effects_of (start i c) s))"
proof -
  let ?s0 = "notify (OnIsPlayingChange True) s"
  from assms have started: "filter starts_adapter (effects_of (play i c) ?s0) \<noteq> []"
    by (simp add: effects_of_start heard_def split: if_splits)
  with synth_speaking_play_cases [of i c ?s0]
  have a: "synth_speaking (start i c s) = None
          \<or> (\<exists>u. synth_speaking (start i c s) = Some u \<and> u_onEnd u = (i, c))"
    by (auto simp add: start_def)
  from started play_effects_cases [of i c ?s0]
  have b: "SynthCancel \<in> set (takeWhile (\<lambda>e. \<not> starts_adapter e) (effects_of (start i c) s))"
    by (auto simp add: effects_of_start)
  from a b show ?thesis by blast
qed

lemma synth_speaking_start_cases:
  "synth_speaking (start i c s) = synth_speaking s \<or> synth_speaking (start i c s) = None
   \<or> (\<exists>u. synth_speaking (start i c s) = Some u \<and> u_onEnd u = (i, c))"
  using synth_speaking_play_cases [of i c "notify (OnIsPlayingChange True) s"]
  by (auto simp add: start_def)

lemma utterance_onend_Some:
  assumes "synth_speaking s = Some u" and "u_onEnd u = (i, c)"
  shows "utterance_onend s = Some (start (i + 1) c
      (notify (OnLineEnd (i + 1)) (clearHeartbeat (s\<lparr>synth_speaking := None, tts_status := idle\<rparr>))))"
  using assms by (simp add: utterance_onend_def Let_def)

lemma effects_of_utterance_end:
  assumes "synth_speaking s = Some u" and "u_onEnd u = (i, c)"
  shows "filter (\<lambda>e. listener_of e = Some LineEnd) (effects_of (step UtteranceEnd) s) =
         filter (heard s) [OnLineEnd (i + 1)]"
proof -
  let ?m = "clearHeartbeat (s\<lparr>synth_speaking := None, tts_status := idle\<rparr>)"
  let ?m2 = "notify (OnIsPlayingChange True) (notify (OnLineEnd (i + 1)) ?m)"
  have hm: "heard ?m = heard s"
    by (intro ext heard_if_listeners) simp
  obtain es where es: "trace (play (i + 1) c ?m2) = trace ?m2 @ es"
    using trace_play_extends by blast
  then have "effects_of (play (i + 1) c) ?m2 = es"
    by (rule effects_of_append)
  then have none: "filter (\<lambda>e. listener_of e = Some LineEnd) es = []"
    using play_no_line_end by metis
  have "effects_of (step UtteranceEnd) s = filter (heard s) [OnLineEnd (i + 1), OnIsPlayingChange True] @ es"
    by (rule effects_of_append)
       (simp add: or_same_def utterance_onend_Some [OF assms] start_def es trace_notify hm)
  with none show ?thesis by simp
qed

section \<open>End of book\<close>

text \<open>
  C2, as amended. With a \<open>bookId\<close> that is not empty, a \<open>totalLines\<close> that is not 0 and a
  \<open>selectedVoice\<close>, so that the precondition check passes, \<open>start\<close> at an index below 0 or
  at or beyond \<open>totalLines\<close> tells the caller \<open>onIsPlayingChange(false)\<close> and then
  \<open>onBookCompleted\<close> with the current timestamp (after the \<open>onIsPlayingChange(true)\<close> every
  start begins with), changes nothing else and starts no adapter.
\<close>

theorem end_of_book:
  assumes "bookId c = Some b" and "b \<noteq> []" and "totalLines c = Some n" and "n \<noteq> 0"
    and "selectedVoice c = Some v" and "index < 0 \<or> index \<ge> n"
  shows "start index c s =
           s\<lparr>trace := trace s @ filter (heard s)
               [OnIsPlayingChange True, OnIsPlayingChange False, OnBookCompleted (nowISO s)]\<rparr>
         \<and> effects_of (start index c) s = filter (heard s)
               [OnIsPlayingChange True, OnIsPlayingChange False, OnBookCompleted (nowISO s)]
         \<and> filter starts_adapter (effects_of (start index c) s) = []"
proof -
  have nowISO: "nowISO (notify (OnIsPlayingChange True) s) = nowISO s"
    by (simp add: notify_def call_def)
  have eq: "start index c s = s\<lparr>trace := trace s @ filter (heard s)
               [OnIsPlayingChange True, OnIsPlayingChange False, OnBookCompleted (nowISO s)]\<rparr>"
    using assms by (simp add: start_def play_def falsy_string_def nowISO notify_3)
  have eff: "effects_of (start index c) s = filter (heard s)
               [OnIsPlayingChange True, OnIsPlayingChange False, OnBookCompleted (nowISO s)]"
    by (rule effects_of_append) (simp add: eq)
  have "filter starts_adapter (effects_of (start index c) s) = []"
    by (simp add: eff)
  with eq eff show ?thesis by blast
qed

theorem end_of_book_witness:
  "bookId mockConfigs = Some ''123'' \<and> ''123'' \<noteq> [] \<and> totalLines mockConfigs = Some 10 \<and> (10::int) \<noteq> 0
   \<and> selectedVoice mockConfigs = Some voice1 \<and> ((10::int) < 0 \<or> (10::int) \<ge> 10)
   \<and> effects_of (start 10 mockConfigs) listening =
       [OnIsPlayingChange True, OnIsPlayingChange False, OnBookCompleted ''2026-01-01T00:00:00.000Z'']"
  using end_of_book [of mockConfigs "''123''" 10 voice1 10 listening]
  by (simp add: mockConfigs_def listening_def initial_def heard_def)

text \<open>
  As stated for every configuration in which the three are present, C2 fails: with
  \<open>totalLines = 0\<close> present, \<open>start\<close> at index 5, which is beyond \<open>totalLines\<close>, tells the
  caller \<open>onIsPlayingChange(true)\<close> and nothing more.
\<close>

theorem end_of_book_counterexample:
  "bookId (mockConfigs\<lparr>totalLines := Some 0\<rparr>) = Some ''123''
   \<and> totalLines (mockConfigs\<lparr>totalLines := Some 0\<rparr>) = Some 0
   \<and> selectedVoice (mockConfigs\<lparr>totalLines := Some 0\<rparr>) = Some voice1
   \<and> (5::int) \<ge> 0
   \<and> effects_of (start 5 (mockConfigs\<lparr>totalLines := Some 0\<rparr>)) listening = [OnIsPlayingChange True]
   \<and> OnIsPlayingChange False \<notin> set (effects_of (start 5 (mockConfigs\<lparr>totalLines := Some 0\<rparr>)) listening)
   \<and> OnBookCompleted (nowISO listening)
        \<notin> set (effects_of (start 5 (mockConfigs\<lparr>totalLines := Some 0\<rparr>)) listening)"
proof -
  have f: "falsy_string (bookId (mockConfigs\<lparr>totalLines := Some 0\<rparr>))
      \<or> totalLines (mockConfigs\<lparr>totalLines := Some 0\<rparr>) = None
      \<or> totalLines (mockConfigs\<lparr>totalLines := Some 0\<rparr>) = Some 0
      \<or> selectedVoice (mockConfigs\<lparr>totalLines := Some 0\<rparr>) = None"
    by simp
  have "effects_of (start 5 (mockConfigs\<lparr>totalLines := Some 0\<rparr>)) listening = [OnIsPlayingChange True]"
    by (simp add: effects_of_start_not_ready [OF f])
  then show ?thesis by simp
qed

section \<open>Adapter dispatch\<close>

text \<open>
  C3. For an index that is within \<open>totalLines\<close> and loaded, \<open>start\<close> starts exactly one
  adapter, the one of \<open>selectedVoice.type\<close>, on the line at the index (its text for the
  synthesis, its audio URL for the cloud element, whose digits read back as the index),
  after stopping the other adapter. For a system voice the cloud element is unloaded (handler cleared, \<open>src\<close> removed) before the
  synthesis speaks; \<open>resume\<close> itself already unloads it at once.
\<close>

theorem adapter_dispatch:
  assumes "bookId c = Some b" and "b \<noteq> []" and "totalLines c = Some n"
    and "selectedVoice c = Some v" and "0 \<le> index" and "index < n"
    and "index < int (length (lines c))"
  shows "effects_of (start index c) s =
           filter (heard s) [OnIsPlayingChange True] @ SilentPlay #
           (case vtype v of
              cloud \<Rightarrow> [SynthCancel, CloudPause, CloudSetSrc (cloudSrc index c v),
                         CloudSetOnended (Some (index, c)), CloudPlay]
            | system \<Rightarrow> [CloudPause, CloudSetOnended None, CloudRemoveSrc, CloudLoad, SynthCancel,
                          SynthSpeak (Some (lines c ! nat index)) (if vid v = [] then None else Some (vid v))])
         \<and> length (filter starts_adapter (effects_of (start index c) s)) = 1
         \<and> (case vtype v of
              cloud \<Rightarrow> synth_speaking (start index c s) = None
                        \<and> cloud_src (start index c s) = Some (cloudSrc index c v)
            | system \<Rightarrow> cloud_src (start index c s) = None
                         \<and> (\<exists>u. synth_speaking (start index c s) = Some u
                                  \<and> u_text u = Some (lines c ! nat index)))
         \<and> cloud_src (resume index c s) = None
         \<and> (\<exists>ds. cloudSrc index c v = ''/api/books/'' @ b @ ''/audio/'' @ ds @ ''?voice='' @ vid v
                  \<and> decimal ds = nat index)"
proof -
  let ?s0 = "notify (OnIsPlayingChange True) s"
  have eff: "effects_of (start index c) s =
           filter (heard s) [OnIsPlayingChange True] @ SilentPlay #
           (case vtype v of
              cloud \<Rightarrow> [SynthCancel, CloudPause, CloudSetSrc (cloudSrc index c v),
                         CloudSetOnended (Some (index, c)), CloudPlay]
            | system \<Rightarrow> [CloudPause, CloudSetOnended None, CloudRemoveSrc, CloudLoad, SynthCancel,
                          SynthSpeak (Some (lines c ! nat index)) (if vid v = [] then None else Some (vid v))])"
    by (rule effects_of_append)
       (simp add: start_def trace_play_dispatch [OF assms] trace_notify)
  have one: "length (filter starts_adapter (effects_of (start index c) s)) = 1"
    unfolding eff by (cases "vtype v") (simp_all add: heard_def)
  have fields: "case vtype v of
              cloud \<Rightarrow> synth_speaking (start index c s) = None
                        \<and> cloud_src (start index c s) = Some (cloudSrc index c v)
            | system \<Rightarrow> cloud_src (start index c s) = None
                         \<and> (\<exists>u. synth_speaking (start index c s) = Some u
                                  \<and> u_text u = Some (lines c ! nat index))"
  proof (cases "vtype v")
    case system
    with assms show ?thesis
      by (simp add: start_def play_dispatch [OF assms] Let_def line_at_def)
  next
    case cloud
    then show ?thesis
      by (simp add: start_def play_dispatch [OF assms] Let_def)
  qed
  have unload: "cloud_src (resume index c s) = None"
    by (simp add: resume_def setTimeout_def pause_def tts_defs Let_def call_def split: option.splits prod.splits)
  have "\<exists>ds. cloudSrc index c v = ''/api/books/'' @ b @ ''/audio/'' @ ds @ ''?voice='' @ vid v
                  \<and> decimal ds = nat index"
    using assms(1,5) by (rule cloudSrc_reads_index)
  with eff one fields unload show ?thesis by blast
qed

theorem adapter_dispatch_witness:
  "bookId mockConfigs = Some ''123'' \<and> ''123'' \<noteq> [] \<and> totalLines mockConfigs = Some 10
   \<and> selectedVoice mockConfigs = Some voice1 \<and> (0::int) \<le> 7 \<and> (7::int) < 10
   \<and> 7 < int (length (lines mockConfigs))
   \<and> effects_of (start 0 mockConfigs) listening =
       [OnIsPlayingChange True, SilentPlay, CloudPause, CloudSetOnended None, CloudRemoveSrc,
        CloudLoad, SynthCancel, SynthSpeak (Some ''Line 1'') (Some ''voice1'')]
   \<and> effects_of (start 7 mockConfigs) listening =
       [OnIsPlayingChange True, SilentPlay, CloudPause, CloudSetOnended None, CloudRemoveSrc,
        CloudLoad, SynthCancel, SynthSpeak (Some ''Line 8'') (Some ''voice1'')]
   \<and> effects_of (start 0 cloudConfigs) listening =
       [OnIsPlayingChange True, SilentPlay, SynthCancel, CloudPause,
        CloudSetSrc ''/api/books/123/audio/0?voice=google-1'',
        CloudSetOnended (Some (0, cloudConfigs)), CloudPlay]
   \<and> effects_of (start 7 cloudConfigs) listening =
       [OnIsPlayingChange True, SilentPlay, SynthCancel, CloudPause,
        CloudSetSrc ''/api/books/123/audio/7?voice=google-1'',
        CloudSetOnended (Some (7, cloudConfigs)), CloudPlay]
   \<and> effects_of (start 12 (cloudConfigs\<lparr>lines := replicate 20 ''Line'', totalLines := Some 20\<rparr>)) listening =
       [OnIsPlayingChange True, SilentPlay, SynthCancel, CloudPause,
        CloudSetSrc ''/api/books/123/audio/12?voice=google-1'',
        CloudSetOnended (Some (12, cloudConfigs\<lparr>lines := replicate 20 ''Line'', totalLines := Some 20\<rparr>)),
        CloudPlay]
   \<and> decimal ''12'' = 12"
proof -
  let ?long = "cloudConfigs\<lparr>lines := replicate 20 ''Line'', totalLines := Some 20\<rparr>"
  have urls: "cloudSrc 0 cloudConfigs google1 = ''/api/books/123/audio/0?voice=google-1''"
    "cloudSrc 7 cloudConfigs google1 = ''/api/books/123/audio/7?voice=google-1''"
    "cloudSrc 12 ?long google1 = ''/api/books/123/audio/12?voice=google-1''"
    by (simp_all add: cloudSrc_def string_of_int_def digit_def cloudConfigs_def mockConfigs_def google1_def)
  have spoken: "lines mockConfigs ! 0 = ''Line 1''" "lines mockConfigs ! 7 = ''Line 8''"
    "vid voice1 = ''voice1''"
    by (simp_all add: mockConfigs_def voice1_def)
  have hyps: "bookId mockConfigs = Some ''123'' \<and> ''123'' \<noteq> [] \<and> totalLines mockConfigs = Some 10
      \<and> selectedVoice mockConfigs = Some voice1 \<and> (0::int) \<le> 7 \<and> (7::int) < 10
      \<and> 7 < int (length (lines mockConfigs))"
    by simp
  have a: "effects_of (start 0 mockConfigs) listening =
       [OnIsPlayingChange True, SilentPlay, CloudPause, CloudSetOnended None, CloudRemoveSrc,
        CloudLoad, SynthCancel, SynthSpeak (Some ''Line 1'') (Some ''voice1'')]"
    using adapter_dispatch [of mockConfigs "''123''" 10 voice1 0 listening]
    by (simp add: spoken)
  have b: "effects_of (start 7 mockConfigs) listening =
       [OnIsPlayingChange True, SilentPlay, CloudPause, CloudSetOnended None, CloudRemoveSrc,
        CloudLoad, SynthCancel, SynthSpeak (Some ''Line 8'') (Some ''voice1'')]"
    using adapter_dispatch [of mockConfigs "''123''" 10 voice1 7 listening]
    by (simp add: spoken)
  have c: "effects_of (start 0 cloudConfigs) listening =
       [OnIsPlayingChange True, SilentPlay, SynthCancel, CloudPause,
        CloudSetSrc ''/api/books/123/audio/0?voice=google-1'',
        CloudSetOnended (Some (0, cloudConfigs)), CloudPlay]"
    using adapter_dispatch [of cloudConfigs "''123''" 10 google1 0 listening]
    by (simp add: urls)
  have d: "effects_of (start 7 cloudConfigs) listening =
       [OnIsPlayingChange True, SilentPlay, SynthCancel, CloudPause,
        CloudSetSrc ''/api/books/123/audio/7?voice=google-1'',
        CloudSetOnended (Some (7, cloudConfigs)), CloudPlay]"
    using adapter_dispatch [of cloudConfigs "''123''" 10 google1 7 listening]
    by (simp add: urls)
  have long: "bookId ?long = Some ''123''" "totalLines ?long = Some 20" "selectedVoice ?long = Some google1"
    "12 < int (length (lines ?long))"
    by simp_all
  have e: "effects_of (start 12 ?long) listening =
       [OnIsPlayingChange True, SilentPlay, SynthCancel, CloudPause,
        CloudSetSrc ''/api/books/123/audio/12?voice=google-1'',
        CloudSetOnended (Some (12, ?long)), CloudPlay]"
    using adapter_dispatch [of ?long "''123''" 20 google1 12 listening] long
    by (simp add: urls)
  have f: "decimal ''12'' = 12"
    by (simp add: decimal_def digit_value_def)
  from hyps a b c d e f show ?thesis by blast
qed

section \<open>Loading gap\<close>

text \<open>
  C5. For an index within \<open>totalLines\<close> that is not loaded yet, \<open>start\<close> runs \<open>pause()\<close>
  and then tells the caller \<open>onLoadMoreLines(index)\<close>. No adapter starts, no timer is set
  (a timer that was set is cleared), and no completion handler or utterance is left that
  could advance playback: the engine does not retry.
\<close>

theorem loading_gap:
  assumes "bookId c = Some b" and "b \<noteq> []" and "totalLines c = Some n"
    and "selectedVoice c = Some v" and "0 \<le> index" and "index < n"
    and "index \<ge> int (length (lines c))"
  shows "start index c s = notify (OnLoadMoreLines index) (pause (notify (OnIsPlayingChange True) s))
         \<and> effects_of (start index c) s =
             filter (heard s) [OnIsPlayingChange True]
             @ [SilentPause, CloudPause, CloudSetOnended None, CloudRemoveSrc, CloudLoad, SynthCancel]
             @ filter (heard s) [OnLoadMoreLines index]
         \<and> filter starts_adapter (effects_of (start index c) s) = []
         \<and> timeouts (start index c s) = filter (\<lambda>t. Some (t_handle t) \<noteq> timer s) (timeouts s)
         \<and> cloud_onended (start index c s) = None
         \<and> synth_speaking (start index c s) = None"
proof -
  have eq: "start index c s = notify (OnLoadMoreLines index) (pause (notify (OnIsPlayingChange True) s))"
    using assms by (auto simp add: start_def play_def falsy_string_def)
  have eff: "effects_of (start index c) s =
             filter (heard s) [OnIsPlayingChange True]
             @ [SilentPause, CloudPause, CloudSetOnended None, CloudRemoveSrc, CloudLoad, SynthCancel]
             @ filter (heard s) [OnLoadMoreLines index]"
    by (rule effects_of_append) (simp add: eq trace_notify)
  have none: "filter starts_adapter (effects_of (start index c) s) = []"
    unfolding eff by (simp add: heard_def)
  have t: "timeouts (start index c s) = filter (\<lambda>t. Some (t_handle t) \<noteq> timer s) (timeouts s)"
    by (simp add: eq timeouts_clearTimer)
  have "cloud_onended (start index c s) = None" and "synth_speaking (start index c s) = None"
    by (simp_all add: eq)
  with eq eff none t show ?thesis by blast
qed

theorem loading_gap_witness:
  "bookId mockConfigs = Some ''123'' \<and> ''123'' \<noteq> [] \<and> totalLines (mockConfigs\<lparr>lines := [''Line 1'']\<rparr>) = Some 10
   \<and> selectedVoice mockConfigs = Some voice1 \<and> (0::int) \<le> 5 \<and> (5::int) < 10
   \<and> 5 \<ge> int (length (lines (mockConfigs\<lparr>lines := [''Line 1'']\<rparr>)))
   \<and> effects_of (start 5 (mockConfigs\<lparr>lines := [''Line 1'']\<rparr>)) listening =
       [OnIsPlayingChange True, SilentPause, CloudPause, CloudSetOnended None, CloudRemoveSrc,
        CloudLoad, SynthCancel, OnLoadMoreLines 5]
   \<and> timeouts (start 5 (mockConfigs\<lparr>lines := [''Line 1'']\<rparr>) listening) = []"
  using loading_gap [of "mockConfigs\<lparr>lines := [''Line 1'']\<rparr>" "''123''" 10 voice1 5 listening]
  by (simp add: mockConfigs_def timeouts_clearTimer)

section \<open>Missing preconditions\<close>

text \<open>
  C8, as amended. When \<open>bookId\<close>, \<open>totalLines\<close> or \<open>selectedVoice\<close> is missing, the internal
  \<open>play\<close> changes nothing, starts no adapter and tells the caller nothing. A \<open>start\<close> call
  still makes its \<open>onIsPlayingChange(true)\<close> call before \<open>play\<close> runs, and does nothing
  else.
\<close>

theorem precondition_failure:
  assumes "bookId c = None \<or> totalLines c = None \<or> selectedVoice c = None"
  shows "play index c s = s
         \<and> start index c s = notify (OnIsPlayingChange True) s
         \<and> effects_of (start index c) s = filter (heard s) [OnIsPlayingChange True]
         \<and> filter starts_adapter (effects_of (start index c) s) = []"
proof -
  from assms have f: "falsy_string (bookId c) \<or> totalLines c = None \<or> totalLines c = Some 0 \<or> selectedVoice c = None"
    by (auto simp add: falsy_string_def)
  have "filter starts_adapter (filter (heard s) [OnIsPlayingChange True]) = []"
    by simp
  then show ?thesis
    by (simp add: play_not_ready [OF f] effects_of_start_not_ready [OF f] start_def)
qed

theorem precondition_failure_witness:
  "selectedVoice (mockConfigs\<lparr>selectedVoice := None\<rparr>) = None
   \<and> play 3 (mockConfigs\<lparr>selectedVoice := None\<rparr>) listening = listening
   \<and> effects_of (start 3 (mockConfigs\<lparr>selectedVoice := None\<rparr>)) listening = [OnIsPlayingChange True]"
  using precondition_failure [of "mockConfigs\<lparr>selectedVoice := None\<rparr>" 3 listening]
  by simp

text \<open>
  As stated for every call to the engine, C8 fails: \<open>start\<close> with a missing \<open>bookId\<close> calls
  the caller's \<open>onIsPlayingChange\<close> listener, and the state differs by that call.
\<close>

theorem precondition_failure_counterexample:
  "bookId (mockConfigs\<lparr>bookId := None\<rparr>) = None
   \<and> effects_of (start 0 (mockConfigs\<lparr>bookId := None\<rparr>)) listening = [OnIsPlayingChange True]
   \<and> start 0 (mockConfigs\<lparr>bookId := None\<rparr>) listening \<noteq> listening"
proof -
  have f: "falsy_string (bookId (mockConfigs\<lparr>bookId := None\<rparr>)) \<or> totalLines (mockConfigs\<lparr>bookId := None\<rparr>) = None
    \<or> totalLines (mockConfigs\<lparr>bookId := None\<rparr>) = Some 0 \<or> selectedVoice (mockConfigs\<lparr>bookId := None\<rparr>) = None"
    by (simp add: falsy_string_def)
  have e: "effects_of (start 0 (mockConfigs\<lparr>bookId := None\<rparr>)) listening = [OnIsPlayingChange True]"
    by (simp add: effects_of_start_not_ready [OF f])
  have "effects_of (start 0 (mockConfigs\<lparr>bookId := None\<rparr>)) listening \<noteq> effects_of (\<lambda>s. s) listening"
    by (simp add: e)
  then have "start 0 (mockConfigs\<lparr>bookId := None\<rparr>) listening \<noteq> listening"
    by (auto simp add: effects_of_def)
  with e show ?thesis by simp
qed

section \<open>Start notifies before it validates\<close>

text \<open>
  C9. For every index and every configuration, the first thing \<open>start\<close> does is call
  \<open>onIsPlayingChange(true)\<close>; whatever \<open>play\<close> does comes after it. So a start at the end
  of the book gives \<open>onIsPlayingChange(true)\<close>, \<open>onIsPlayingChange(false)\<close>,
  \<open>onBookCompleted\<close>, and a start whose preconditions fail gives \<open>onIsPlayingChange(true)\<close>
  alone.
\<close>

theorem start_notifies_first:
  "effects_of (start index c) s =
     filter (heard s) [OnIsPlayingChange True] @ effects_of (play index c) (notify (OnIsPlayingChange True) s)
   \<and> (IsPlayingChange \<in> listeners s \<longrightarrow> take 1 (effects_of (start index c) s) = [OnIsPlayingChange True])
   \<and> (\<not> falsy_string (bookId c) \<and> selectedVoice c \<noteq> None
        \<and> (\<exists>n. totalLines c = Some n \<and> n \<noteq> 0 \<and> (index < 0 \<or> index \<ge> n))
      \<longrightarrow> effects_of (start index c) s =
            filter (heard s) [OnIsPlayingChange True, OnIsPlayingChange False, OnBookCompleted (nowISO s)])
   \<and> (falsy_string (bookId c) \<or> totalLines c = None \<or> totalLines c = Some 0 \<or> selectedVoice c = None
      \<longrightarrow> effects_of (start index c) s = filter (heard s) [OnIsPlayingChange True])"
proof -
  have first: "IsPlayingChange \<in> listeners s \<longrightarrow> take 1 (effects_of (start index c) s) = [OnIsPlayingChange True]"
    by (simp add: effects_of_start heard_def)
  have eob: "effects_of (start index c) s =
            filter (heard s) [OnIsPlayingChange True, OnIsPlayingChange False, OnBookCompleted (nowISO s)]"
    if "\<not> falsy_string (bookId c)" and "selectedVoice c \<noteq> None"
      and "totalLines c = Some n" and "n \<noteq> 0" and "index < 0 \<or> index \<ge> n" for n
  proof -
    have nowISO: "nowISO (notify (OnIsPlayingChange True) s) = nowISO s"
      by (simp add: notify_def call_def)
    have "start index c s = s\<lparr>trace := trace s @ filter (heard s)
               [OnIsPlayingChange True, OnIsPlayingChange False, OnBookCompleted (nowISO s)]\<rparr>"
      using that by (auto simp add: start_def play_def nowISO notify_3)
    then show ?thesis
      by (intro effects_of_append) simp
  qed
  show ?thesis
    using effects_of_start first eob effects_of_start_not_ready by blast
qed

theorem start_notifies_first_witness:
  "IsPlayingChange \<in> listeners listening
   \<and> take 1 (effects_of (start 0 mockConfigs) listening) = [OnIsPlayingChange True]
   \<and> effects_of (start (- 1) mockConfigs) listening =
       [OnIsPlayingChange True, OnIsPlayingChange False, OnBookCompleted ''2026-01-01T00:00:00.000Z'']
   \<and> effects_of (start 0 (mockConfigs\<lparr>bookId := None\<rparr>)) listening = [OnIsPlayingChange True]"
proof -
  have l: "IsPlayingChange \<in> listeners listening"
    by simp
  with start_notifies_first [of 0 mockConfigs listening]
  have a: "take 1 (effects_of (start 0 mockConfigs) listening) = [OnIsPlayingChange True]"
    by blast
  have "\<not> falsy_string (bookId mockConfigs) \<and> selectedVoice mockConfigs \<noteq> None
        \<and> (\<exists>n. totalLines mockConfigs = Some n \<and> n \<noteq> 0 \<and> ((- 1 :: int) < 0 \<or> - 1 \<ge> n))"
    by (simp add: mockConfigs_def falsy_string_def)
  with start_notifies_first [of "- 1" mockConfigs listening]
  have "effects_of (start (- 1) mockConfigs) listening =
      filter (heard listening) [OnIsPlayingChange True, OnIsPlayingChange False, OnBookCompleted (nowISO listening)]"
    by blast
  then have b: "effects_of (start (- 1) mockConfigs) listening =
       [OnIsPlayingChange True, OnIsPlayingChange False, OnBookCompleted ''2026-01-01T00:00:00.000Z'']"
    by simp
  have "falsy_string (bookId (mockConfigs\<lparr>bookId := None\<rparr>))"
    by (simp add: falsy_string_def)
  with start_notifies_first [of 0 "mockConfigs\<lparr>bookId := None\<rparr>" listening]
  have "effects_of (start 0 (mockConfigs\<lparr>bookId := None\<rparr>)) listening = filter (heard listening) [OnIsPlayingChange True]"
    by blast
  then have c: "effects_of (start 0 (mockConfigs\<lparr>bookId := None\<rparr>)) listening = [OnIsPlayingChange True]"
    by simp
  from l a b c show ?thesis by blast
qed

section \<open>Falsy values count as missing\<close>

text \<open>
  C10. A configuration with \<open>totalLines = 0\<close> or with the empty string as \<open>bookId\<close> fails
  the precondition check: \<open>play\<close> does nothing at any index, and a \<open>start\<close> on an empty
  book never calls \<open>onBookCompleted\<close>, although the index is at or beyond \<open>totalLines\<close>.
\<close>

theorem falsy_is_missing:
  assumes "totalLines c = Some 0 \<or> bookId c = Some []"
  shows "play index c s = s
         \<and> effects_of (start index c) s = filter (heard s) [OnIsPlayingChange True]
         \<and> (\<forall>t. OnBookCompleted t \<notin> set (effects_of (start index c) s))"
proof -
  from assms have f: "falsy_string (bookId c) \<or> totalLines c = None \<or> totalLines c = Some 0 \<or> selectedVoice c = None"
    by (auto simp add: falsy_string_def)
  show ?thesis
    by (simp add: play_not_ready [OF f] effects_of_start_not_ready [OF f])
qed

theorem falsy_is_missing_witness:
  "totalLines (mockConfigs\<lparr>lines := [], totalLines := Some 0\<rparr>) = Some 0
   \<and> (0::int) \<ge> 0
   \<and> play 0 (mockConfigs\<lparr>lines := [], totalLines := Some 0\<rparr>) listening = listening
   \<and> effects_of (start 0 (mockConfigs\<lparr>lines := [], totalLines := Some 0\<rparr>)) listening = [OnIsPlayingChange True]
   \<and> OnBookCompleted ''2026-01-01T00:00:00.000Z''
       \<notin> set (effects_of (start 0 (mockConfigs\<lparr>lines := [], totalLines := Some 0\<rparr>)) listening)"
  using falsy_is_missing [of "mockConfigs\<lparr>lines := [], totalLines := Some 0\<rparr>" 0 listening]
  by simp

section \<open>Debounced resume\<close>

text \<open>
  C4. In every run of the engine at most one resume timer is set, and the restart guard
  \<open>isRestarting\<close> is up whenever one is. When \<open>resume(i1, c1)\<close> is followed by
  \<open>resume(i2, c2)\<close> less than 1000 ms later, the first timer cannot have fired in between,
  the second call clears it, and the one timer left is the second call's: it fires once
  1000 ms have passed, runs \<open>play(i2, c2)\<close>, which sets no further timer, and lowers the
  guard.
\<close>

theorem debounced_resume:
  "length (timeouts (run es (initial m p now))) \<le> 1
   \<and> (timeouts (run es (initial m p now)) \<noteq> [] \<longrightarrow> isRestarting (run es (initial m p now)))
   \<and> (timer_inv s \<and> d < 1000 \<longrightarrow>
        (let s1 = step (Tick d now1) (resume i1 c1 s);
             s2 = resume i2 c2 s1
         in (\<forall>h. timeout_fires h s1 = None)
            \<and> timeouts s2 = [\<lparr>t_handle = nextHandle s + 1, t_due = clock s + d + 1000, t_play = (i2, c2)\<rparr>]
            \<and> isRestarting s2
            \<and> (\<forall>h d2 now2.
                 let s3 = step (Tick d2 now2) s2
                 in timeout_fires h s3 =
                      (if h = nextHandle s + 1 \<and> 1000 \<le> d2
                       then Some ((play i2 c2 (s3\<lparr>timeouts := []\<rparr>))\<lparr>isRestarting := False\<rparr>)
                       else None)
                    \<and> timeouts (play i2 c2 (s3\<lparr>timeouts := []\<rparr>)) = [])))"
proof -
  have "timer_inv (run es (initial m p now))"
    by (intro timer_inv_run timer_inv_initial)
  then have always: "length (timeouts (run es (initial m p now))) \<le> 1"
    "timeouts (run es (initial m p now)) \<noteq> [] \<longrightarrow> isRestarting (run es (initial m p now))"
    by (auto simp add: timer_inv_def neq_Nil_conv)
  have window: "let s1 = step (Tick d now1) (resume i1 c1 s);
             s2 = resume i2 c2 s1
         in (\<forall>h. timeout_fires h s1 = None)
            \<and> timeouts s2 = [\<lparr>t_handle = nextHandle s + 1, t_due = clock s + d + 1000, t_play = (i2, c2)\<rparr>]
            \<and> isRestarting s2
            \<and> (\<forall>h d2 now2.
                 let s3 = step (Tick d2 now2) s2
                 in timeout_fires h s3 =
                      (if h = nextHandle s + 1 \<and> 1000 \<le> d2
                       then Some ((play i2 c2 (s3\<lparr>timeouts := []\<rparr>))\<lparr>isRestarting := False\<rparr>)
                       else None)
                    \<and> timeouts (play i2 c2 (s3\<lparr>timeouts := []\<rparr>)) = [])"
    if inv: "timer_inv s" and d: "d < 1000"
  proof -
    define r1 where "r1 = resume i1 c1 s"
    define s1 where "s1 = step (Tick d now1) r1"
    define s2 where "s2 = resume i2 c2 s1"
    have r1: "timeouts r1 = [\<lparr>t_handle = nextHandle s, t_due = clock s + 1000, t_play = (i1, c1)\<rparr>]"
      "clock r1 = clock s" "nextHandle r1 = nextHandle s + 1"
      using inv by (simp_all add: r1_def timeouts_resume_inv resume_env)
    have "timer_inv r1"
      using inv by (simp add: r1_def timer_inv_resume)
    then have inv1: "timer_inv s1"
      unfolding s1_def by (rule timer_inv_step)
    have s1: "timeouts s1 = timeouts r1" "clock s1 = clock s + d" "nextHandle s1 = nextHandle s + 1"
      by (simp_all add: s1_def r1)
    have quiet: "timeout_fires h s1 = None" for h
      using d by (simp add: timeout_fires_single [of s1, OF s1(1) [unfolded r1(1)]] s1)
    have s2: "timeouts s2 = [\<lparr>t_handle = nextHandle s + 1, t_due = clock s + d + 1000, t_play = (i2, c2)\<rparr>]"
      using inv1 by (simp add: s2_def timeouts_resume_inv s1)
    have guard: "isRestarting s2"
      by (simp add: s2_def resume_timers)
    have fire: "timeout_fires h (step (Tick d2 now2) s2) =
                      (if h = nextHandle s + 1 \<and> 1000 \<le> d2
                       then Some ((play i2 c2 ((step (Tick d2 now2) s2)\<lparr>timeouts := []\<rparr>))\<lparr>isRestarting := False\<rparr>)
                       else None)" for h d2 now2
    proof -
      define s3 where "s3 = step (Tick d2 now2) s2"
      have t: "timeouts s3 = [\<lparr>t_handle = nextHandle s + 1, t_due = clock s + d + 1000, t_play = (i2, c2)\<rparr>]"
        by (simp add: s3_def s2)
      have c: "clock s3 = clock s + d + d2"
        by (simp add: s3_def s2_def resume_env s1)
      have "timeout_fires h s3 =
                      (if h = nextHandle s + 1 \<and> 1000 \<le> d2
                       then Some ((play i2 c2 (s3\<lparr>timeouts := []\<rparr>))\<lparr>isRestarting := False\<rparr>)
                       else None)"
        by (simp add: timeout_fires_single [OF t] c)
      then show ?thesis
        by (simp only: s3_def)
    qed
    have after: "timeouts (play i2 c2 ((step (Tick d2 now2) s2)\<lparr>timeouts := []\<rparr>)) = []" for d2 now2
      by (rule timeouts_play_none) simp
    from quiet s2 guard fire after show ?thesis
      unfolding Let_def s1_def [symmetric] r1_def [symmetric] s2_def [symmetric]
      by (simp only: r1_def [symmetric] s1_def [symmetric] s2_def [symmetric]) blast
  qed
  from always window show ?thesis by blast
qed

theorem debounced_resume_witness:
  "timeouts (run [Resume 1 mockConfigs] (initial True True [])) \<noteq> []
   \<and> isRestarting (run [Resume 1 mockConfigs] (initial True True []))
   \<and> timer_inv listening \<and> (500::nat) < 1000
   \<and> timeout_fires 1 (step (Tick 500 ''t1'') (resume 1 mockConfigs listening)) = None
   \<and> timeouts (resume 2 cloudConfigs (step (Tick 500 ''t1'') (resume 1 mockConfigs listening))) =
        [\<lparr>t_handle = 2, t_due = 1500, t_play = (2, cloudConfigs)\<rparr>]
   \<and> timeout_fires 1
        (step (Tick 1000 ''t2'') (resume 2 cloudConfigs (step (Tick 500 ''t1'') (resume 1 mockConfigs listening)))) = None
   \<and> timeout_fires 2
        (step (Tick 1000 ''t2'') (resume 2 cloudConfigs (step (Tick 500 ''t1'') (resume 1 mockConfigs listening)))) =
      Some ((play 2 cloudConfigs
        ((step (Tick 1000 ''t2'') (resume 2 cloudConfigs (step (Tick 500 ''t1'') (resume 1 mockConfigs listening))))
           \<lparr>timeouts := []\<rparr>))\<lparr>isRestarting := False\<rparr>)"
proof -
  have inv: "timer_inv listening \<and> (500::nat) < 1000"
    by (simp add: timer_inv_def)
  note w = debounced_resume [where s = listening and d = 500 and ?now1.0 = "''t1''" and ?i1.0 = 1
      and ?c1.0 = mockConfigs and ?i2.0 = 2 and ?c2.0 = cloudConfigs, unfolded Let_def]
  from w inv have quiet: "\<forall>h. timeout_fires h (step (Tick 500 ''t1'') (resume 1 mockConfigs listening)) = None"
    by blast
  from w inv have one: "timeouts (resume 2 cloudConfigs (step (Tick 500 ''t1'') (resume 1 mockConfigs listening))) =
        [\<lparr>t_handle = nextHandle listening + 1, t_due = clock listening + 500 + 1000, t_play = (2, cloudConfigs)\<rparr>]"
    by blast
  from w inv have fire: "\<forall>h d2 now2. timeout_fires h
        (step (Tick d2 now2) (resume 2 cloudConfigs (step (Tick 500 ''t1'') (resume 1 mockConfigs listening)))) =
      (if h = nextHandle listening + 1 \<and> 1000 \<le> d2
       then Some ((play 2 cloudConfigs
        ((step (Tick d2 now2) (resume 2 cloudConfigs (step (Tick 500 ''t1'') (resume 1 mockConfigs listening))))
           \<lparr>timeouts := []\<rparr>))\<lparr>isRestarting := False\<rparr>)
       else None)"
    by blast
  from quiet have a: "timeout_fires 1 (step (Tick 500 ''t1'') (resume 1 mockConfigs listening)) = None"
    by blast
  from one have b: "timeouts (resume 2 cloudConfigs (step (Tick 500 ''t1'') (resume 1 mockConfigs listening))) =
        [\<lparr>t_handle = 2, t_due = 1500, t_play = (2, cloudConfigs)\<rparr>]"
    by simp
  from fire [rule_format, of 1 1000 "''t2''"] have c: "timeout_fires 1
        (step (Tick 1000 ''t2'') (resume 2 cloudConfigs (step (Tick 500 ''t1'') (resume 1 mockConfigs listening)))) = None"
    by simp
  from fire [rule_format, of 2 1000 "''t2''"] have d: "timeout_fires 2
        (step (Tick 1000 ''t2'') (resume 2 cloudConfigs (step (Tick 500 ''t1'') (resume 1 mockConfigs listening)))) =
      Some ((play 2 cloudConfigs
        ((step (Tick 1000 ''t2'') (resume 2 cloudConfigs (step (Tick 500 ''t1'') (resume 1 mockConfigs listening))))
           \<lparr>timeouts := []\<rparr>))\<lparr>isRestarting := False\<rparr>)"
    by simp
  have pending: "timeouts (run [Resume 1 mockConfigs] (initial True True [])) \<noteq> []"
    by (simp add: run_def resume_timers)
  with debounced_resume [where es = "[Resume 1 mockConfigs]" and m = True and p = True and now = "[]"]
  have guard: "isRestarting (run [Resume 1 mockConfigs] (initial True True []))"
    by blast
  from pending guard inv a b c d show ?thesis by blast
qed

section \<open>Natural advance\<close>

text \<open>
  C7. When line \<open>i\<close> ends naturally (the cloud element's \<open>ended\<close> event, or the \<open>end\<close> event
  of the utterance), the engine tells the caller \<open>onLineEnd(i + 1)\<close> first and only then
  runs \<open>start(i + 1, configs)\<close>. When \<open>i\<close> is the last line of a fully loaded book, for
  instance line 9 of 10, the completion gives \<open>onLineEnd(i + 1)\<close>, then
  \<open>onIsPlayingChange(true)\<close>, \<open>onIsPlayingChange(false)\<close> and \<open>onBookCompleted\<close>, and no adapter
  starts.
\<close>

theorem natural_advance:
  "(cloud_onended s = Some (i, c) \<longrightarrow>
      cloud_ended s = start (i + 1) c (notify (OnLineEnd (i + 1)) s)
      \<and> effects_of cloud_ended s =
          filter (heard s) [OnLineEnd (i + 1), OnIsPlayingChange True]
          @ effects_of (play (i + 1) c) (notify (OnIsPlayingChange True) (notify (OnLineEnd (i + 1)) s)))
   \<and> (synth_speaking s = Some u \<and> u_onEnd u = (i, c) \<longrightarrow>
        (\<exists>mid. utterance_onend s = Some (start (i + 1) c mid)
               \<and> trace mid = trace s @ filter (heard s) [OnLineEnd (i + 1)]))
   \<and> (bookId c = Some b \<and> b \<noteq> [] \<and> totalLines c = Some n \<and> selectedVoice c = Some v
        \<and> 0 \<le> i \<and> i < n \<and> i < int (length (lines c)) \<and> n \<le> i + 1 \<longrightarrow>
        effects_of (step (case vtype v of cloud \<Rightarrow> CloudEnded | system \<Rightarrow> UtteranceEnd)) (start i c s0) =
          filter (heard s0)
            [OnLineEnd (i + 1), OnIsPlayingChange True, OnIsPlayingChange False, OnBookCompleted (nowISO s0)])"
proof -
  have cloud_path: "cloud_ended s = start (i + 1) c (notify (OnLineEnd (i + 1)) s)
      \<and> effects_of cloud_ended s =
          filter (heard s) [OnLineEnd (i + 1), OnIsPlayingChange True]
          @ effects_of (play (i + 1) c) (notify (OnIsPlayingChange True) (notify (OnLineEnd (i + 1)) s))"
    if h: "cloud_onended s = Some (i, c)"
  proof -
    have "cloud_ended s = start (i + 1) c (notify (OnLineEnd (i + 1)) s)"
      using h by (simp add: cloud_ended_def Let_def)
    with effects_of_cloud_ended [OF h] show ?thesis
      by simp
  qed
  have system_path: "\<exists>mid. utterance_onend s = Some (start (i + 1) c mid)
               \<and> trace mid = trace s @ filter (heard s) [OnLineEnd (i + 1)]"
    if h: "synth_speaking s = Some u" "u_onEnd u = (i, c)"
  proof (intro exI conjI)
    show "utterance_onend s = Some (start (i + 1) c
        (notify (OnLineEnd (i + 1)) (clearHeartbeat (s\<lparr>synth_speaking := None, tts_status := idle\<rparr>))))"
      using h by (simp add: utterance_onend_def Let_def)
    have "heard (clearHeartbeat (s\<lparr>synth_speaking := None, tts_status := idle\<rparr>)) = heard s"
      by (intro ext heard_if_listeners) simp
    then show "trace (notify (OnLineEnd (i + 1)) (clearHeartbeat (s\<lparr>synth_speaking := None, tts_status := idle\<rparr>))) =
        trace s @ filter (heard s) [OnLineEnd (i + 1)]"
      by (simp add: trace_notify)
  qed
  have last_line: "effects_of (step (case vtype v of cloud \<Rightarrow> CloudEnded | system \<Rightarrow> UtteranceEnd)) (start i c s0) =
          filter (heard s0)
            [OnLineEnd (i + 1), OnIsPlayingChange True, OnIsPlayingChange False, OnBookCompleted (nowISO s0)]"
    if ok: "bookId c = Some b" "b \<noteq> []" "totalLines c = Some n" "selectedVoice c = Some v"
      "0 \<le> i" "i < n" "i < int (length (lines c))" and last: "n \<le> i + 1"
  proof -
    let ?s1 = "start i c s0"
    note st = start_dispatch_state [OF ok, of s0]
    have hs: "heard ?s1 = heard s0"
      by (intro ext) simp
    from ok have n0: "n \<noteq> 0" by simp
    have over: "\<And>m. heard m = heard s0 \<Longrightarrow> nowISO m = nowISO s0 \<Longrightarrow>
        trace (start (i + 1) c (notify (OnLineEnd (i + 1)) m)) =
        trace m @ filter (heard s0)
          [OnLineEnd (i + 1), OnIsPlayingChange True, OnIsPlayingChange False, OnBookCompleted (nowISO s0)]"
      using last
      by (simp add: start_past_the_end [OF ok(1,2,3) n0 ok(4)] trace_notify)
    show ?thesis
    proof (cases "vtype v")
      case cloud
      then have "cloud_onended ?s1 = Some (i, c)"
        by (rule st)
      then have "cloud_ended ?s1 = start (i + 1) c (notify (OnLineEnd (i + 1)) ?s1)"
        by (simp add: cloud_ended_def Let_def)
      with cloud show ?thesis
        by (intro effects_of_append) (simp add: over [OF hs])
    next
      case system
      then have u: "synth_speaking ?s1 = Some (new_utterance (line_at c i) c (vid v) (i, c))"
        by (rule st)
      let ?m = "clearHeartbeat (?s1\<lparr>synth_speaking := None, tts_status := idle\<rparr>)"
      have hm: "heard ?m = heard s0"
        using hs by (simp add: heard_def fun_eq_iff split: option.splits)
      have nm: "nowISO ?m = nowISO s0"
        by simp
      have "utterance_onend ?s1 = Some (start (i + 1) c (notify (OnLineEnd (i + 1)) ?m))"
        using u by (simp add: utterance_onend_def Let_def)
      with system show ?thesis
        by (intro effects_of_append) (simp add: or_same_def over [OF hm nm])
    qed
  qed
  from cloud_path system_path last_line show ?thesis by blast
qed

theorem natural_advance_witness:
  "cloud_onended (start 0 cloudConfigs listening) = Some (0, cloudConfigs)
   \<and> cloud_ended (start 0 cloudConfigs listening) =
       start 1 cloudConfigs (notify (OnLineEnd 1) (start 0 cloudConfigs listening))
   \<and> synth_speaking (start 0 mockConfigs listening) =
       Some (new_utterance (Some ''Line 1'') mockConfigs ''voice1'' (0, mockConfigs))
   \<and> (\<exists>mid. utterance_onend (start 0 mockConfigs listening) = Some (start 1 mockConfigs mid)
             \<and> trace mid = trace (start 0 mockConfigs listening) @ [OnLineEnd 1])
   \<and> effects_of (step UtteranceEnd) (start 9 mockConfigs listening) =
       [OnLineEnd 10, OnIsPlayingChange True, OnIsPlayingChange False,
        OnBookCompleted ''2026-01-01T00:00:00.000Z'']
   \<and> filter starts_adapter (effects_of (step UtteranceEnd) (start 9 mockConfigs listening)) = []"
proof -
  have ok0: "bookId cloudConfigs = Some ''123''" "''123'' \<noteq> []" "totalLines cloudConfigs = Some 10"
    "selectedVoice cloudConfigs = Some google1" "(0::int) \<le> 0" "(0::int) < 10"
    "0 < int (length (lines cloudConfigs))"
    by simp_all
  have ok1: "bookId mockConfigs = Some ''123''" "''123'' \<noteq> []" "totalLines mockConfigs = Some 10"
    "selectedVoice mockConfigs = Some voice1" "(0::int) \<le> 0" "(0::int) < 10"
    "0 < int (length (lines mockConfigs))"
    by simp_all
  have a: "cloud_onended (start 0 cloudConfigs listening) = Some (0, cloudConfigs)"
    by (simp add: start_dispatch_state(1) [OF ok0])
  with natural_advance [where s = "start 0 cloudConfigs listening" and i = 0 and c = cloudConfigs]
  have b: "cloud_ended (start 0 cloudConfigs listening) =
       start 1 cloudConfigs (notify (OnLineEnd 1) (start 0 cloudConfigs listening))"
    by simp
  have "synth_speaking (start 0 mockConfigs listening) =
       Some (new_utterance (line_at mockConfigs 0) mockConfigs (vid voice1) (0, mockConfigs))"
    by (simp add: start_dispatch_state(2) [OF ok1])
  then have c: "synth_speaking (start 0 mockConfigs listening) =
       Some (new_utterance (Some ''Line 1'') mockConfigs ''voice1'' (0, mockConfigs))"
    by (simp add: line_at_def mockConfigs_def voice1_def)
  then have "synth_speaking (start 0 mockConfigs listening) =
       Some (new_utterance (Some ''Line 1'') mockConfigs ''voice1'' (0, mockConfigs))
     \<and> u_onEnd (new_utterance (Some ''Line 1'') mockConfigs ''voice1'' (0, mockConfigs)) = (0, mockConfigs)"
    by simp
  with natural_advance [where s = "start 0 mockConfigs listening"
      and u = "new_utterance (Some ''Line 1'') mockConfigs ''voice1'' (0, mockConfigs)"
      and i = 0 and c = mockConfigs]
  have "\<exists>mid. utterance_onend (start 0 mockConfigs listening) = Some (start (0 + 1) mockConfigs mid)
             \<and> trace mid = trace (start 0 mockConfigs listening)
                 @ filter (heard (start 0 mockConfigs listening)) [OnLineEnd (0 + 1)]"
    by blast
  then have d: "\<exists>mid. utterance_onend (start 0 mockConfigs listening) = Some (start 1 mockConfigs mid)
             \<and> trace mid = trace (start 0 mockConfigs listening) @ [OnLineEnd 1]"
    by simp
  have "bookId mockConfigs = Some ''123'' \<and> ''123'' \<noteq> [] \<and> totalLines mockConfigs = Some 10
      \<and> selectedVoice mockConfigs = Some voice1 \<and> (0::int) \<le> 9 \<and> (9::int) < 10
      \<and> 9 < int (length (lines mockConfigs)) \<and> (10::int) \<le> 9 + 1"
    by simp
  with natural_advance [where c = mockConfigs and b = "''123''" and n = 10 and v = voice1
      and i = 9 and ?s0.0 = listening]
  have "effects_of (step (case vtype voice1 of cloud \<Rightarrow> CloudEnded | system \<Rightarrow> UtteranceEnd))
          (start 9 mockConfigs listening) =
        filter (heard listening)
          [OnLineEnd (9 + 1), OnIsPlayingChange True, OnIsPlayingChange False, OnBookCompleted (nowISO listening)]"
    by blast
  then have e: "effects_of (step UtteranceEnd) (start 9 mockConfigs listening) =
       [OnLineEnd 10, OnIsPlayingChange True, OnIsPlayingChange False,
        OnBookCompleted ''2026-01-01T00:00:00.000Z'']"
    by simp
  then have f: "filter starts_adapter (effects_of (step UtteranceEnd) (start 9 mockConfigs listening)) = []"
    by simp
  from a b c d e f show ?thesis by blast
qed

section \<open>Supersession\<close>

text \<open>
  C1. \<open>stop()\<close> invalidates the earlier session's completion handler, whichever adapter it
  was on: it clears the cloud element's \<open>ended\<close> handler and cancels the utterance, so an
  \<open>ended\<close> event that arrives after it does nothing and no \<open>end\<close> of the earlier utterance
  can follow. Whenever a \<open>start\<close> starts an adapter, the cloud handler has been overwritten
  (with the new session's, or cleared) and the earlier utterance cancelled before the
  adapter starts, and the only completion handlers left are the new session's. Hence after
  \<open>stop()\<close> and then \<open>start(i, config)\<close> a completion event runs nothing or the new handler
  only, and it tells the caller \<open>onLineEnd\<close> at most once, for \<open>i + 1\<close>.
\<close>

theorem supersession:
  "cloud_onended (stop s) = None
   \<and> cloud_ended (stop s) = stop s
   \<and> (filter starts_adapter (effects_of (start i c) s) \<noteq> [] \<longrightarrow>
        (cloud_onended (start i c s) = None \<or> cloud_onended (start i c s) = Some (i, c))
        \<and> CloudSetOnended (cloud_onended (start i c s))
            \<in> set (takeWhile (\<lambda>e. \<not> starts_adapter e) (effects_of (start i c) s)))
   \<and> (cloud_onended (start i c (stop s)) = None \<or> cloud_onended (start i c (stop s)) = Some (i, c))
   \<and> (cloud_ended (start i c (stop s)) = start i c (stop s)
       \<or> cloud_ended (start i c (stop s)) =
           start (i + 1) c (notify (OnLineEnd (i + 1)) (start i c (stop s))))
   \<and> (filter (\<lambda>e. listener_of e = Some LineEnd) (effects_of cloud_ended (start i c (stop s))) = []
       \<or> filter (\<lambda>e. listener_of e = Some LineEnd) (effects_of cloud_ended (start i c (stop s)))
           = [OnLineEnd (i + 1)])
   \<and> synth_speaking (stop s) = None
   \<and> utterance_onend (stop s) = None
   \<and> (filter starts_adapter (effects_of (start i c) s) \<noteq> [] \<longrightarrow>
        (synth_speaking (start i c s) = None
         \<or> (\<exists>u. synth_speaking (start i c s) = Some u \<and> u_onEnd u = (i, c)))
        \<and> SynthCancel \<in> set (takeWhile (\<lambda>e. \<not> starts_adapter e) (effects_of (start i c) s)))
   \<and> (synth_speaking (start i c (stop s)) = None
       \<or> (\<exists>u. synth_speaking (start i c (stop s)) = Some u \<and> u_onEnd u = (i, c)))
   \<and> (utterance_onend (start i c (stop s)) = None
       \<or> (\<exists>mid. utterance_onend (start i c (stop s)) = Some (start (i + 1) c mid)
                 \<and> trace mid = trace (start i c (stop s)) @ filter (heard s) [OnLineEnd (i + 1)]))
   \<and> (filter (\<lambda>e. listener_of e = Some LineEnd) (effects_of (step UtteranceEnd) (start i c (stop s))) = []
       \<or> filter (\<lambda>e. listener_of e = Some LineEnd) (effects_of (step UtteranceEnd) (start i c (stop s)))
           = [OnLineEnd (i + 1)])"
proof -
  let ?s' = "start i c (stop s)"
  have a0: "cloud_onended (stop s) = None"
    by simp
  have a: "cloud_ended (stop s) = stop s"
    by (simp add: cloud_ended_def)
  have h: "cloud_onended ?s' = None \<or> cloud_onended ?s' = Some (i, c)"
    using cloud_onended_start_cases [of i c "stop s"] by auto
  have e: "cloud_ended ?s' = ?s' \<or> cloud_ended ?s' = start (i + 1) c (notify (OnLineEnd (i + 1)) ?s')"
    using h by (auto simp add: cloud_ended_def Let_def)
  have l: "filter (\<lambda>e. listener_of e = Some LineEnd) (effects_of cloud_ended ?s') = []
       \<or> filter (\<lambda>e. listener_of e = Some LineEnd) (effects_of cloud_ended ?s') = [OnLineEnd (i + 1)]"
  proof (cases "cloud_onended ?s'")
    case None
    then have "cloud_ended ?s' = ?s'"
      by (simp add: cloud_ended_def)
    then show ?thesis
      by (simp add: effects_of_def)
  next
    case (Some k)
    with h have k: "cloud_onended ?s' = Some (i, c)" by simp
    have "filter (\<lambda>e. listener_of e = Some LineEnd) (effects_of cloud_ended ?s') =
        filter (\<lambda>e. listener_of e = Some LineEnd) (filter (heard ?s') [OnLineEnd (i + 1), OnIsPlayingChange True])"
      by (simp add: effects_of_cloud_ended [OF k] play_no_line_end)
    then show ?thesis by simp
  qed
  have g: "filter starts_adapter (effects_of (start i c) s) \<noteq> [] \<longrightarrow>
        (cloud_onended (start i c s) = None \<or> cloud_onended (start i c s) = Some (i, c))
        \<and> CloudSetOnended (cloud_onended (start i c s))
            \<in> set (takeWhile (\<lambda>e. \<not> starts_adapter e) (effects_of (start i c) s))"
    using start_supersedes [of i c s] by blast
  have cloud_part: "cloud_onended (stop s) = None
   \<and> cloud_ended (stop s) = stop s
   \<and> (filter starts_adapter (effects_of (start i c) s) \<noteq> [] \<longrightarrow>
        (cloud_onended (start i c s) = None \<or> cloud_onended (start i c s) = Some (i, c))
        \<and> CloudSetOnended (cloud_onended (start i c s))
            \<in> set (takeWhile (\<lambda>e. \<not> starts_adapter e) (effects_of (start i c) s)))
   \<and> (cloud_onended ?s' = None \<or> cloud_onended ?s' = Some (i, c))
   \<and> (cloud_ended ?s' = ?s' \<or> cloud_ended ?s' = start (i + 1) c (notify (OnLineEnd (i + 1)) ?s'))
   \<and> (filter (\<lambda>e. listener_of e = Some LineEnd) (effects_of cloud_ended ?s') = []
       \<or> filter (\<lambda>e. listener_of e = Some LineEnd) (effects_of cloud_ended ?s') = [OnLineEnd (i + 1)])"
    using a0 a g h e l by (intro conjI)
  have b0: "synth_speaking (stop s) = None"
    by simp
  have b: "utterance_onend (stop s) = None"
    by (simp add: utterance_onend_def)
  have sg: "filter starts_adapter (effects_of (start i c) s) \<noteq> [] \<longrightarrow>
        (synth_speaking (start i c s) = None
         \<or> (\<exists>u. synth_speaking (start i c s) = Some u \<and> u_onEnd u = (i, c)))
        \<and> SynthCancel \<in> set (takeWhile (\<lambda>e. \<not> starts_adapter e) (effects_of (start i c) s))"
    using start_cancels_speech [of i c s] by blast
  have sh: "synth_speaking ?s' = None \<or> (\<exists>u. synth_speaking ?s' = Some u \<and> u_onEnd u = (i, c))"
    using synth_speaking_start_cases [of i c "stop s"] by auto
  have hs: "heard ?s' = heard s"
    by (intro ext) simp
  have se: "utterance_onend ?s' = None
       \<or> (\<exists>mid. utterance_onend ?s' = Some (start (i + 1) c mid)
                 \<and> trace mid = trace ?s' @ filter (heard s) [OnLineEnd (i + 1)])"
  proof (cases "synth_speaking ?s'")
    case None
    then show ?thesis
      by (simp add: utterance_onend_def)
  next
    case (Some u)
    with sh have u: "synth_speaking ?s' = Some u" "u_onEnd u = (i, c)"
      by auto
    let ?mid = "notify (OnLineEnd (i + 1)) (clearHeartbeat (?s'\<lparr>synth_speaking := None, tts_status := idle\<rparr>))"
    have "heard (clearHeartbeat (?s'\<lparr>synth_speaking := None, tts_status := idle\<rparr>)) = heard s"
      by (intro ext heard_if_listeners) simp
    then have "trace ?mid = trace ?s' @ filter (heard s) [OnLineEnd (i + 1)]"
      by (simp add: trace_notify)
    with utterance_onend_Some [OF u] show ?thesis
      by blast
  qed
  have sl: "filter (\<lambda>e. listener_of e = Some LineEnd) (effects_of (step UtteranceEnd) ?s') = []
       \<or> filter (\<lambda>e. listener_of e = Some LineEnd) (effects_of (step UtteranceEnd) ?s') = [OnLineEnd (i + 1)]"
  proof (cases "synth_speaking ?s'")
    case None
    then have "step UtteranceEnd ?s' = ?s'"
      by (simp add: utterance_onend_def or_same_def)
    then show ?thesis
      by (simp add: effects_of_def)
  next
    case (Some u)
    with sh have u: "synth_speaking ?s' = Some u" "u_onEnd u = (i, c)"
      by auto
    show ?thesis
      by (simp add: effects_of_utterance_end [OF u])
  qed
  have speech_part: "synth_speaking (stop s) = None
   \<and> utterance_onend (stop s) = None
   \<and> (filter starts_adapter (effects_of (start i c) s) \<noteq> [] \<longrightarrow>
        (synth_speaking (start i c s) = None
         \<or> (\<exists>u. synth_speaking (start i c s) = Some u \<and> u_onEnd u = (i, c)))
        \<and> SynthCancel \<in> set (takeWhile (\<lambda>e. \<not> starts_adapter e) (effects_of (start i c) s)))
   \<and> (synth_speaking ?s' = None \<or> (\<exists>u. synth_speaking ?s' = Some u \<and> u_onEnd u = (i, c)))
   \<and> (utterance_onend ?s' = None
       \<or> (\<exists>mid. utterance_onend ?s' = Some (start (i + 1) c mid)
                 \<and> trace mid = trace ?s' @ filter (heard s) [OnLineEnd (i + 1)]))
   \<and> (filter (\<lambda>e. listener_of e = Some LineEnd) (effects_of (step UtteranceEnd) ?s') = []
       \<or> filter (\<lambda>e. listener_of e = Some LineEnd) (effects_of (step UtteranceEnd) ?s') = [OnLineEnd (i + 1)])"
    using b0 b sg sh se sl by (intro conjI)
  from cloud_part speech_part show ?thesis
    by simp
qed

theorem supersession_witness:
  "filter starts_adapter (effects_of (start 5 cloudConfigs) (start 0 cloudConfigs listening)) \<noteq> []
   \<and> cloud_onended (start 0 cloudConfigs listening) = Some (0, cloudConfigs)
   \<and> cloud_onended (start 5 cloudConfigs (start 0 cloudConfigs listening)) = Some (5, cloudConfigs)
   \<and> CloudSetOnended (Some (5, cloudConfigs))
        \<in> set (takeWhile (\<lambda>e. \<not> starts_adapter e)
              (effects_of (start 5 cloudConfigs) (start 0 cloudConfigs listening)))
   \<and> cloud_ended (stop (start 0 cloudConfigs listening)) = stop (start 0 cloudConfigs listening)
   \<and> filter starts_adapter (effects_of (start 5 mockConfigs) (start 0 mockConfigs listening)) \<noteq> []
   \<and> synth_speaking (start 0 mockConfigs listening) =
        Some (new_utterance (Some ''Line 1'') mockConfigs ''voice1'' (0, mockConfigs))
   \<and> synth_speaking (start 5 mockConfigs (start 0 mockConfigs listening)) =
        Some (new_utterance (Some ''Line 6'') mockConfigs ''voice1'' (5, mockConfigs))
   \<and> SynthCancel
        \<in> set (takeWhile (\<lambda>e. \<not> starts_adapter e)
              (effects_of (start 5 mockConfigs) (start 0 mockConfigs listening)))
   \<and> utterance_onend (stop (start 0 mockConfigs listening)) = None"
proof -
  let ?s = "start 0 cloudConfigs listening"
  let ?t = "start 0 mockConfigs listening"
  have ok0: "bookId cloudConfigs = Some ''123''" "''123'' \<noteq> []" "totalLines cloudConfigs = Some 10"
    "selectedVoice cloudConfigs = Some google1" "(0::int) \<le> 0" "(0::int) < 10"
    "0 < int (length (lines cloudConfigs))"
    by simp_all
  have ok5: "bookId cloudConfigs = Some ''123''" "''123'' \<noteq> []" "totalLines cloudConfigs = Some 10"
    "selectedVoice cloudConfigs = Some google1" "(0::int) \<le> 5" "(5::int) < 10"
    "5 < int (length (lines cloudConfigs))"
    by simp_all
  have sy0: "bookId mockConfigs = Some ''123''" "''123'' \<noteq> []" "totalLines mockConfigs = Some 10"
    "selectedVoice mockConfigs = Some voice1" "(0::int) \<le> 0" "(0::int) < 10"
    "0 < int (length (lines mockConfigs))"
    by simp_all
  have sy5: "bookId mockConfigs = Some ''123''" "''123'' \<noteq> []" "totalLines mockConfigs = Some 10"
    "selectedVoice mockConfigs = Some voice1" "(0::int) \<le> 5" "(5::int) < 10"
    "5 < int (length (lines mockConfigs))"
    by simp_all
  have spoken: "line_at mockConfigs 0 = Some ''Line 1''" "line_at mockConfigs 5 = Some ''Line 6''"
    "vid voice1 = ''voice1''"
    by (simp_all add: line_at_def mockConfigs_def voice1_def)
  have a: "filter starts_adapter (effects_of (start 5 cloudConfigs) ?s) \<noteq> []"
    by (simp add: effects_of_start_dispatch [OF ok5] heard_def)
  have b: "cloud_onended ?s = Some (0, cloudConfigs)"
    by (simp add: start_dispatch_state(1) [OF ok0])
  have c: "cloud_onended (start 5 cloudConfigs ?s) = Some (5, cloudConfigs)"
    by (simp add: start_dispatch_state(1) [OF ok5])
  note w = supersession [where s = ?s and i = 5 and c = cloudConfigs]
  from w a have "CloudSetOnended (cloud_onended (start 5 cloudConfigs ?s))
        \<in> set (takeWhile (\<lambda>e. \<not> starts_adapter e) (effects_of (start 5 cloudConfigs) ?s))"
    by blast
  then have d: "CloudSetOnended (Some (5, cloudConfigs))
        \<in> set (takeWhile (\<lambda>e. \<not> starts_adapter e) (effects_of (start 5 cloudConfigs) ?s))"
    by (simp only: c)
  from w have e: "cloud_ended (stop ?s) = stop ?s"
    by blast
  have f: "filter starts_adapter (effects_of (start 5 mockConfigs) ?t) \<noteq> []"
    by (simp add: effects_of_start_dispatch [OF sy5] heard_def)
  have g: "synth_speaking ?t = Some (new_utterance (Some ''Line 1'') mockConfigs ''voice1'' (0, mockConfigs))"
    using start_dispatch_state(2) [OF sy0, of listening] by (simp add: spoken)
  have h: "synth_speaking (start 5 mockConfigs ?t) =
        Some (new_utterance (Some ''Line 6'') mockConfigs ''voice1'' (5, mockConfigs))"
    using start_dispatch_state(2) [OF sy5, of ?t] by (simp add: spoken)
  note v = supersession [where s = ?t and i = 5 and c = mockConfigs]
  from v f have k: "SynthCancel
        \<in> set (takeWhile (\<lambda>e. \<not> starts_adapter e) (effects_of (start 5 mockConfigs) ?t))"
    by blast
  from v have l: "utterance_onend (stop ?t) = None"
    by blast
  from a b c d e f g h k l show ?thesis by blast
qed

section \<open>Backend failures\<close>

text \<open>
  The three places an adapter failure reaches the engine: the rejected promise of
  \<open>cloudAudio.play()\<close>, the \<open>error\<close> event of the cloud audio element, and the error callback
  of the synthesis. None of them starts an adapter or sets a timer.
\<close>

lemma error_paths:
  "effects_of (cloud_play_rejected name) s =
     (if name = ''AbortError'' then [ConsoleLog ''Cloud playback was interrupted by a new request'']
      else [ConsoleError ''Cloud playback error:'' name])
   \<and> cloud_play_rejected name s = s\<lparr>trace := trace s @ effects_of (cloud_play_rejected name) s\<rparr>
   \<and> effects_of cloud_error s = filter (heard s) [OnIsPlayingChange False]
   \<and> cloud_error s = s\<lparr>trace := trace s @ effects_of cloud_error s\<rparr>
   \<and> effects_of utterance_onerror s = (if isRestarting s then [] else filter (heard s) [OnIsPlayingChange False])
   \<and> timeouts (utterance_onerror s) = timeouts s
   \<and> cloud_onended (utterance_onerror s) = cloud_onended s
   \<and> synth_speaking (utterance_onerror s) = synth_speaking s
   \<and> filter starts_adapter (effects_of (cloud_play_rejected name) s) = []
   \<and> filter starts_adapter (effects_of cloud_error s) = []
   \<and> filter starts_adapter (effects_of utterance_onerror s) = []"
proof -
  have a: "effects_of (cloud_play_rejected name) s =
     (if name = ''AbortError'' then [ConsoleLog ''Cloud playback was interrupted by a new request'']
      else [ConsoleError ''Cloud playback error:'' name])"
    by (rule effects_of_append) (simp add: cloud_play_rejected_def)
  have b: "cloud_play_rejected name s = s\<lparr>trace := trace s @ effects_of (cloud_play_rejected name) s\<rparr>"
    unfolding a by (simp add: cloud_play_rejected_def call_def)
  have c: "effects_of cloud_error s = filter (heard s) [OnIsPlayingChange False]"
    by (rule effects_of_append) (simp add: cloud_error_def trace_notify)
  have d: "cloud_error s = s\<lparr>trace := trace s @ effects_of cloud_error s\<rparr>"
    unfolding c by (simp add: cloud_error_def notify_def call_def)
  have hs: "heard (clearHeartbeat (s\<lparr>tts_status := idle\<rparr>)) = heard s"
    by (intro ext heard_if_listeners) simp
  have e: "effects_of utterance_onerror s = (if isRestarting s then [] else filter (heard s) [OnIsPlayingChange False])"
    by (rule effects_of_append) (simp add: utterance_onerror_def Let_def trace_notify hs)
  have f: "cloud_onended (utterance_onerror s) = cloud_onended s"
    "synth_speaking (utterance_onerror s) = synth_speaking s"
    by (simp_all add: utterance_onerror_def Let_def clearHeartbeat_def clearInterval_def split: option.splits)
  have g: "filter starts_adapter (effects_of (cloud_play_rejected name) s) = []"
    "filter starts_adapter (effects_of cloud_error s) = []"
    "filter starts_adapter (effects_of utterance_onerror s) = []"
    unfolding a c e by (simp_all add: heard_def)
  from a b c d e f g show ?thesis by simp
qed

text \<open>
  C6. An adapter failure other than the superseded-operation signal is to be logged and
  surfaced to the caller as \<open>onIsPlayingChange(false)\<close>. The code does not do so for a
  rejected \<open>cloudAudio.play()\<close>: a rejection named \<open>NotAllowedError\<close> is written with
  \<open>console.error\<close> and the caller, who is listening, is told nothing. The sibling paths do
  tell the caller: the \<open>error\<close> event of the cloud audio element and the error callback of
  the synthesis both call \<open>onIsPlayingChange(false)\<close>. An \<open>AbortError\<close> is kept from the
  caller, as the claim says.
\<close>

theorem play_rejection_not_surfaced:
  "''NotAllowedError'' \<noteq> ''AbortError''
   \<and> heard listening (OnIsPlayingChange False)
   \<and> effects_of (cloud_play_rejected ''NotAllowedError'') listening =
       [ConsoleError ''Cloud playback error:'' ''NotAllowedError'']
   \<and> OnIsPlayingChange False \<notin> set (effects_of (cloud_play_rejected ''NotAllowedError'') listening)
   \<and> effects_of cloud_error listening = [OnIsPlayingChange False]
   \<and> effects_of utterance_onerror listening = [OnIsPlayingChange False]
   \<and> effects_of (cloud_play_rejected ''AbortError'') listening =
       [ConsoleLog ''Cloud playback was interrupted by a new request'']"
proof -
  have a: "effects_of (cloud_play_rejected ''NotAllowedError'') listening =
       [ConsoleError ''Cloud playback error:'' ''NotAllowedError'']"
    by (rule effects_of_append) (simp add: cloud_play_rejected_def)
  have b: "effects_of cloud_error listening = [OnIsPlayingChange False]"
    by (rule effects_of_append) (simp add: cloud_error_def trace_notify)
  have "heard (clearHeartbeat (listening\<lparr>tts_status := idle\<rparr>)) = heard listening"
    by (intro ext heard_if_listeners) simp
  then have c: "effects_of utterance_onerror listening = [OnIsPlayingChange False]"
    by (intro effects_of_append) (simp add: utterance_onerror_def Let_def trace_notify)
  have d: "effects_of (cloud_play_rejected ''AbortError'') listening =
       [ConsoleLog ''Cloud playback was interrupted by a new request'']"
    by (rule effects_of_append) (simp add: cloud_play_rejected_def)
  from a b c d show ?thesis by simp
qed

end
